theory Spec2Isabelle
  imports Main "HOL-Library.Sublist"
begin

section \<open>Strings and character classes\<close>

text \<open>
  A JavaScript string is a sequence of UTF-16 code units. The model uses \<^typ>\<open>string\<close>;
  a \<^typ>\<open>char\<close> stands for one code unit below 256. The character classes are those of
  the regular expressions in \<^verbatim>\<open>schema.ts\<close> and \<^verbatim>\<open>generator.ts\<close>, read on that range:
  \<^verbatim>\<open>\s\<close> is TAB, LF, VT, FF, CR, SPACE and U+00A0.
\<close>

definition isDigit :: "char \<Rightarrow> bool" where
  "isDigit c = (48 \<le> (of_char c :: nat) \<and> (of_char c :: nat) \<le> 57)"

definition isUpper :: "char \<Rightarrow> bool" where
  "isUpper c = (65 \<le> (of_char c :: nat) \<and> (of_char c :: nat) \<le> 90)"

definition isLower :: "char \<Rightarrow> bool" where
  "isLower c = (97 \<le> (of_char c :: nat) \<and> (of_char c :: nat) \<le> 122)"

definition isSpace :: "char \<Rightarrow> bool" where
  "isSpace c = (c \<in> set [CHR 0x09, CHR 0x0A, CHR 0x0B, CHR 0x0C, CHR 0x0D, CHR '' '', CHR 0xA0])"

text \<open>The class \<^verbatim>\<open>[A-Za-z0-9_]\<close> of \<^verbatim>\<open>templatePattern\<close>.\<close>

definition isKeyChar :: "char \<Rightarrow> bool" where
  "isKeyChar c = (isUpper c \<or> isLower c \<or> isDigit c \<or> c = CHR ''_'')"

text \<open>\<^verbatim>\<open>String.prototype.split\<close> on a one-character separator, and \<^verbatim>\<open>Array.prototype.join\<close>.\<close>

fun splitOn :: "char \<Rightarrow> string \<Rightarrow> string list" where
  "splitOn sep [] = [[]]"
| "splitOn sep (c # cs) =
     (if c = sep then [] # splitOn sep cs
      else (case splitOn sep cs of
              [] \<Rightarrow> [[c]]
            | seg # segs \<Rightarrow> (c # seg) # segs))"

fun joinWith :: "string \<Rightarrow> string list \<Rightarrow> string" where
  "joinWith sep [] = []"
| "joinWith sep [s] = s"
| "joinWith sep (s # t # ts) = s @ sep @ joinWith sep (t # ts)"

section \<open>Objects used as dictionaries\<close>

text \<open>
  A \<^verbatim>\<open>Record<string, string>\<close> is a plain object: an object literal, or the result of
  \<^verbatim>\<open>Object.fromEntries\<close>, \<^verbatim>\<open>JSON.parse\<close> or a zod record. The model keeps its own
  properties as a map. Reading \<^verbatim>\<open>obj[key]\<close> gives the own property where there is one and
  otherwise the property inherited from \<^verbatim>\<open>Object.prototype\<close>. The inherited values are
  functions and, under \<^verbatim>\<open>__proto__\<close>, the prototype object; none of them is \<^verbatim>\<open>null\<close> or
  \<^verbatim>\<open>undefined\<close>, and each stands here as the string that \<^verbatim>\<open>ToString\<close> gives for it in
  Node.
\<close>

definition objectPrototypeTable :: "(string \<times> string) list" where
  "objectPrototypeTable =
     [(''constructor'', ''function Object() { [native code] }''),
      (''__defineGetter__'', ''function __defineGetter__() { [native code] }''),
      (''__defineSetter__'', ''function __defineSetter__() { [native code] }''),
      (''hasOwnProperty'', ''function hasOwnProperty() { [native code] }''),
      (''__lookupGetter__'', ''function __lookupGetter__() { [native code] }''),
      (''__lookupSetter__'', ''function __lookupSetter__() { [native code] }''),
      (''isPrototypeOf'', ''function isPrototypeOf() { [native code] }''),
      (''propertyIsEnumerable'', ''function propertyIsEnumerable() { [native code] }''),
      (''toString'', ''function toString() { [native code] }''),
      (''valueOf'', ''function valueOf() { [native code] }''),
      (''__proto__'', ''[object Object]''),
      (''toLocaleString'', ''function toLocaleString() { [native code] }'')]"

definition objectPrototype :: "string \<rightharpoonup> string" where
  "objectPrototype = map_of objectPrototypeTable"

definition getProp :: "(string \<rightharpoonup> string) \<Rightarrow> string \<Rightarrow> string option" where
  "getProp obj k = (case obj k of Some v \<Rightarrow> Some v | None \<Rightarrow> objectPrototype k)"

section \<open>The recipe data model (\<^verbatim>\<open>schema.ts\<close>)\<close>

datatype difficulty = Easy | Medium | Hard

text \<open>
  \<^verbatim>\<open>RecipeVariable\<close>; the field \<^verbatim>\<open>default\<close> is \<open>default_value\<close> here. Optional fields
  (\<^verbatim>\<open>.optional()\<close>) are options; \<open>None\<close> is \<^verbatim>\<open>undefined\<close>.
\<close>

record RecipeVariable =
  key :: string
  label :: string
  default_value :: string
  required :: bool
  options :: "string list option"
  secret :: "bool option"
  description :: "string option"

record RecipeFile =
  path :: string
  content :: string

text \<open>\<^verbatim>\<open>Recipe\<close>; the fields \<^verbatim>\<open>id\<close>, \<^verbatim>\<open>name\<close> and \<^verbatim>\<open>description\<close> carry a prefix here.\<close>

record Recipe =
  recipe_id :: string
  recipe_name :: string
  recipe_description :: string
  tags :: "string list"
  difficulty :: difficulty
  variables :: "RecipeVariable list"
  composeTemplate :: string
  envTemplate :: string
  readmeTemplate :: string
  seedFiles :: "RecipeFile list option"
  extraFiles :: "RecipeFile list option"

text \<open>\<^verbatim>\<open>/^[A-Z][A-Z0-9_]*$/\<close>, the pattern of a variable key.\<close>

definition variableKeyRegex :: "string \<Rightarrow> bool" where
  "variableKeyRegex s =
     (case s of
        [] \<Rightarrow> False
      | c # cs \<Rightarrow> isUpper c \<and> list_all (\<lambda>d. isUpper d \<or> isDigit d \<or> d = CHR ''_'') cs)"

text \<open>
  \<^verbatim>\<open>/^[a-z0-9]+(?:-[a-z0-9]+)*$/\<close>, the pattern of a recipe id: the pieces between
  hyphens are all non-empty runs of lower-case letters and digits.
\<close>

definition recipeIdRegex :: "string \<Rightarrow> bool" where
  "recipeIdRegex s =
     list_all (\<lambda>seg. seg \<noteq> [] \<and> list_all (\<lambda>d. isLower d \<or> isDigit d) seg) (splitOn CHR ''-'' s)"

text \<open>\<^verbatim>\<open>/^[a-z0-9][a-z0-9-]*$/\<close>, the pattern of a project name in \<^verbatim>\<open>GenerateRequestSchema\<close>.\<close>

definition projectNameRegex :: "string \<Rightarrow> bool" where
  "projectNameRegex s =
     (case s of
        [] \<Rightarrow> False
      | c # cs \<Rightarrow> (isLower c \<or> isDigit c) \<and> list_all (\<lambda>d. isLower d \<or> isDigit d \<or> d = CHR ''-'') cs)"

text \<open>The three zod schemas, as predicates on the typed records.\<close>

definition RecipeVariableSchema :: "RecipeVariable \<Rightarrow> bool" where
  "RecipeVariableSchema v =
     (variableKeyRegex (key v) \<and> label v \<noteq> [] \<and>
      (case options v of None \<Rightarrow> True | Some os \<Rightarrow> list_all (\<lambda>s. s \<noteq> []) os))"

definition RecipeFileSchema :: "RecipeFile \<Rightarrow> bool" where
  "RecipeFileSchema f = (path f \<noteq> [])"

definition RecipeSchema :: "Recipe \<Rightarrow> bool" where
  "RecipeSchema r =
     (recipeIdRegex (recipe_id r) \<and> recipe_name r \<noteq> [] \<and> recipe_description r \<noteq> [] \<and>
      list_all (\<lambda>t. t \<noteq> []) (tags r) \<and>
      list_all RecipeVariableSchema (variables r) \<and>
      composeTemplate r \<noteq> [] \<and> envTemplate r \<noteq> [] \<and> readmeTemplate r \<noteq> [] \<and>
      (case seedFiles r of None \<Rightarrow> True | Some fs \<Rightarrow> list_all RecipeFileSchema fs) \<and>
      (case extraFiles r of None \<Rightarrow> True | Some fs \<Rightarrow> list_all RecipeFileSchema fs))"

section \<open>The template renderer (\<^verbatim>\<open>generator.ts\<close>)\<close>

text \<open>
  \<open>matchToken s\<close> matches \<^verbatim>\<open>/{{\s*([A-Za-z0-9_]+)\s*}}/\<close> at the head of \<open>s\<close> and returns
  the captured key and the text after the match; \<open>closeToken\<close> is its last step, the
  closing braces. The three classes \<^verbatim>\<open>\s\<close>,
  \<^verbatim>\<open>[A-Za-z0-9_]\<close> and \<^verbatim>\<open>}\<close> are pairwise disjoint, so the greedy runs are the only way
  to match and backtracking finds nothing more.
\<close>

definition closeToken :: "string \<Rightarrow> string \<Rightarrow> (string \<times> string) option" where
  "closeToken k r3 =
     (case r3 of
        d1 # d2 # rest \<Rightarrow> if d1 = CHR ''}'' \<and> d2 = CHR ''}'' then Some (k, rest) else None
      | _ \<Rightarrow> None)"

definition matchToken :: "string \<Rightarrow> (string \<times> string) option" where
  "matchToken s =
     (case s of
        c1 # c2 # r \<Rightarrow>
          if c1 = CHR ''{'' \<and> c2 = CHR ''{'' then
            (let r1 = dropWhile isSpace r;
                 k = takeWhile isKeyChar r1;
                 r2 = dropWhile isKeyChar r1;
                 r3 = dropWhile isSpace r2
             in if k = [] then None else closeToken k r3)
          else None
      | _ \<Rightarrow> None)"

lemma matchToken_shorter:
  assumes "matchToken s = Some (k, rest)"
  shows "length rest < length s"
proof -
  from assms obtain r where s: "s = CHR ''{'' # CHR ''{'' # r"
    by (auto simp: matchToken_def split: list.splits if_splits)
  let ?r3 = "dropWhile isSpace (dropWhile isKeyChar (dropWhile isSpace r))"
  from assms s have "?r3 = CHR ''}'' # CHR ''}'' # rest"
    by (auto simp: matchToken_def closeToken_def Let_def split: list.splits if_splits)
  then have "length rest < length ?r3" by simp
  also have "length ?r3 \<le> length r"
    by (meson length_dropWhile_le le_trans)
  finally show ?thesis using s by simp
qed

text \<open>
  \<^verbatim>\<open>template.replace(templatePattern, (_, key) => context[key] ?? "")\<close> with the global
  flag: the scan goes left to right; where the pattern matches, the callback's string is
  emitted as it is and the scan resumes after the match; elsewhere the character is copied.
  The callback's result is \<^verbatim>\<open>context[key]\<close> unless that is absent.
\<close>

function renderTemplate :: "string \<Rightarrow> (string \<rightharpoonup> string) \<Rightarrow> string" where
  "renderTemplate [] ctx = []"
| "renderTemplate (c # cs) ctx =
     (case matchToken (c # cs) of
        Some (k, rest) \<Rightarrow>
          (case getProp ctx k of Some v \<Rightarrow> v | None \<Rightarrow> []) @ renderTemplate rest ctx
      | None \<Rightarrow> c # renderTemplate cs ctx)"
  by pat_completeness auto
termination
  by (relation "measure (\<lambda>(t, ctx). length t)") (auto dest: matchToken_shorter)

section \<open>Paths (\<^verbatim>\<open>node:path\<close>, POSIX)\<close>

text \<open>
  \<^verbatim>\<open>normalizeString\<close> of Node's path module, segment by segment: empty segments and
  \<^verbatim>\<open>.\<close> are dropped, \<^verbatim>\<open>..\<close> removes the segment before it, and is kept only where
  nothing is left to remove and the path may rise above its root.
\<close>

definition normalizeStep :: "bool \<Rightarrow> string list \<Rightarrow> string \<Rightarrow> string list" where
  "normalizeStep allowAboveRoot res seg =
     (if seg = [] \<or> seg = ''.'' then res
      else if seg = ''..'' then
        (if res \<noteq> [] \<and> last res \<noteq> ''..'' then butlast res
         else if allowAboveRoot then res @ [''..''] else res)
      else res @ [seg])"

definition normalizeString :: "string \<Rightarrow> bool \<Rightarrow> string" where
  "normalizeString p allowAboveRoot =
     joinWith ''/'' (foldl (normalizeStep allowAboveRoot) [] (splitOn CHR ''/'' p))"

definition pathNormalize :: "string \<Rightarrow> string" where
  "pathNormalize p =
     (if p = [] then ''.''
      else let isAbsolute = (hd p = CHR ''/'');
               trailingSeparator = (last p = CHR ''/'');
               n = normalizeString p (\<not> isAbsolute)
           in if n = [] then (if isAbsolute then ''/'' else if trailingSeparator then ''./'' else ''.'')
              else (if isAbsolute then ''/'' else []) @ n @ (if trailingSeparator then ''/'' else []))"

definition pathJoin :: "string list \<Rightarrow> string" where
  "pathJoin args =
     (let parts = filter (\<lambda>arg. arg \<noteq> []) args
      in if parts = [] then ''.'' else pathNormalize (joinWith ''/'' parts))"

text \<open>
  \<^verbatim>\<open>path.resolve\<close>: the arguments are taken from the right until one is absolute, the
  working directory last.
\<close>

fun resolveLoop :: "string list \<Rightarrow> string \<Rightarrow> string \<times> bool" where
  "resolveLoop [] resolvedPath = (resolvedPath, False)"
| "resolveLoop (p # ps) resolvedPath =
     (if p = [] then resolveLoop ps resolvedPath
      else if hd p = CHR ''/'' then (p @ ''/'' @ resolvedPath, True)
      else resolveLoop ps (p @ ''/'' @ resolvedPath))"

definition pathResolve :: "string \<Rightarrow> string list \<Rightarrow> string" where
  "pathResolve cwd args =
     (case resolveLoop (rev args @ [cwd]) [] of
        (resolvedPath, resolvedAbsolute) \<Rightarrow>
          (let n = normalizeString resolvedPath (\<not> resolvedAbsolute)
           in if resolvedAbsolute then ''/'' @ n
              else if n \<noteq> [] then n else ''.''))"

text \<open>
  \<^verbatim>\<open>path.dirname\<close>: trailing separators are skipped, then the last segment; the first
  character is never examined.
\<close>

definition pathDirname :: "string \<Rightarrow> string" where
  "pathDirname p =
     (if p = [] then ''.''
      else let hasRoot = (hd p = CHR ''/'');
               r1 = dropWhile (\<lambda>c. c = CHR ''/'') (rev (tl p));
               r2 = dropWhile (\<lambda>c. c \<noteq> CHR ''/'') r1
           in if r2 = [] then (if hasRoot then ''/'' else ''.'')
              else if hasRoot \<and> tl r2 = [] then ''//''
              else hd p # rev (tl r2))"

section \<open>The project generator (\<^verbatim>\<open>generator.ts\<close>)\<close>

text \<open>
  The calls into \<^verbatim>\<open>node:fs\<close> are recorded, in program order, in a trace. A call may
  be refused by the file system (the awaited promise rejects); the run then stops with
  that error and the trace keeps the calls performed before it.
\<close>

datatype fs_op = Mkdir string | WriteFile string string

datatype gen_error = InvalidFilePath string | FsError fs_op

text \<open>
  What a run of the generator depends on besides its arguments: the working directory
  (read by \<^verbatim>\<open>path.resolve\<close>), \<^verbatim>\<open>paths.generatedDir\<close> (computed once, at load, from
  the working directory), and the file system: \<open>fs_accepts rt tr op\<close> says whether the
  call \<open>op\<close> succeeds after the calls \<open>tr\<close>.
\<close>

record runtime =
  cwd :: string
  generatedDir :: string
  fs_accepts :: "fs_op list \<Rightarrow> fs_op \<Rightarrow> bool"

record GenerateFiles =
  compose :: string
  env :: string
  readme :: string

record GenerateResult =
  projectDir :: string
  files :: GenerateFiles

text \<open>\<^verbatim>\<open>safeJoin\<close>; \<^verbatim>\<open>startsWith\<close> is the prefix order on strings.\<close>

definition safeJoin :: "string \<Rightarrow> string \<Rightarrow> string \<Rightarrow> gen_error + string" where
  "safeJoin wd base target =
     (let targetPath = pathResolve wd [base, target]
      in if \<not> prefix base targetPath then Inl (InvalidFilePath target) else Inr targetPath)"

text \<open>\<^verbatim>\<open>Object.fromEntries\<close>: a later entry replaces an earlier one with the same key.\<close>

definition fromEntries :: "(string \<times> string) list \<Rightarrow> (string \<rightharpoonup> string)" where
  "fromEntries entries = foldl (\<lambda>m (k, v). m(k \<mapsto> v)) Map.empty entries"

text \<open>
  The object literal \<^verbatim>\<open>context\<close> of \<^verbatim>\<open>generateProject\<close>: \<^verbatim>\<open>projectName\<close> first, then
  the spread of the variable entries, which wins on a shared key. \<^verbatim>\<open>a ?? b\<close> is \<open>b\<close> only
  where \<open>a\<close> is \<^verbatim>\<open>null\<close> or \<^verbatim>\<open>undefined\<close>, that is, where the property read finds nothing.
\<close>

definition buildContext :: "Recipe \<Rightarrow> string \<Rightarrow> (string \<rightharpoonup> string) \<Rightarrow> (string \<rightharpoonup> string)" where
  "buildContext recipe projectName vars =
     [''projectName'' \<mapsto> projectName] ++
     fromEntries (map (\<lambda>variable.
         (key variable, case getProp vars (key variable) of Some x \<Rightarrow> x | None \<Rightarrow> default_value variable))
       (variables recipe))"

text \<open>A sequence of awaited file-system calls, stopping at the first one refused.\<close>

fun performAll :: "runtime \<Rightarrow> fs_op list \<Rightarrow> fs_op list \<Rightarrow> fs_op list \<times> gen_error option" where
  "performAll rt [] tr = (tr, None)"
| "performAll rt (op # ops) tr =
     (if fs_accepts rt tr op then performAll rt ops (tr @ [op]) else (tr, Some (FsError op)))"

text \<open>
  The body shared by the two \<^verbatim>\<open>for (const file of ...)\<close> loops; \<open>rel\<close> is what the loop
  passes to \<^verbatim>\<open>safeJoin\<close> for a rendered path: \<^verbatim>\<open>path.join("seed", renderedPath)\<close> for a
  seed file, the rendered path itself for an extra file.
\<close>

fun writeFiles ::
  "runtime \<Rightarrow> string \<Rightarrow> (string \<Rightarrow> string) \<Rightarrow> (string \<rightharpoonup> string) \<Rightarrow> RecipeFile list \<Rightarrow>
   fs_op list \<Rightarrow> fs_op list \<times> gen_error option" where
  "writeFiles rt pdir rel ctx [] tr = (tr, None)"
| "writeFiles rt pdir rel ctx (file # rest) tr =
     (let renderedPath = renderTemplate (path file) ctx
      in case safeJoin (cwd rt) pdir (rel renderedPath) of
           Inl e \<Rightarrow> (tr, Some e)
         | Inr targetPath \<Rightarrow>
             (case performAll rt
                     [Mkdir (pathDirname targetPath),
                      WriteFile targetPath (renderTemplate (content file) ctx)] tr of
                (tr', Some e) \<Rightarrow> (tr', Some e)
              | (tr', None) \<Rightarrow> writeFiles rt pdir rel ctx rest tr'))"

text \<open>\<^verbatim>\<open>if (recipe.seedFiles?.length) { ... }\<close>\<close>

definition writeSeedFiles ::
  "runtime \<Rightarrow> string \<Rightarrow> (string \<rightharpoonup> string) \<Rightarrow> RecipeFile list option \<Rightarrow>
   fs_op list \<Rightarrow> fs_op list \<times> gen_error option" where
  "writeSeedFiles rt pdir ctx seeds tr =
     (case seeds of
        None \<Rightarrow> (tr, None)
      | Some fs \<Rightarrow>
          if fs = [] then (tr, None)
          else (case performAll rt [Mkdir (pathJoin [pdir, ''seed''])] tr of
                  (tr', Some e) \<Rightarrow> (tr', Some e)
                | (tr', None) \<Rightarrow>
                    writeFiles rt pdir (\<lambda>renderedPath. pathJoin [''seed'', renderedPath]) ctx fs tr'))"

text \<open>\<^verbatim>\<open>if (recipe.extraFiles?.length) { ... }\<close>\<close>

definition writeExtraFiles ::
  "runtime \<Rightarrow> string \<Rightarrow> (string \<rightharpoonup> string) \<Rightarrow> RecipeFile list option \<Rightarrow>
   fs_op list \<Rightarrow> fs_op list \<times> gen_error option" where
  "writeExtraFiles rt pdir ctx extras tr =
     (case extras of
        None \<Rightarrow> (tr, None)
      | Some fs \<Rightarrow>
          if fs = [] then (tr, None)
          else writeFiles rt pdir (\<lambda>renderedPath. renderedPath) ctx fs tr)"

text \<open>
  \<^verbatim>\<open>generateProject\<close>: the trace of file-system calls it made, and either the error it
  threw or the result it returned.
\<close>

definition generateProject ::
  "runtime \<Rightarrow> Recipe \<Rightarrow> string \<Rightarrow> (string \<rightharpoonup> string) \<Rightarrow> fs_op list \<times> (gen_error + GenerateResult)" where
  "generateProject rt recipe projectName vars =
     (let ctx = buildContext recipe projectName vars;
          pdir = pathJoin [generatedDir rt, projectName];
          c = renderTemplate (composeTemplate recipe) ctx;
          e = renderTemplate (envTemplate recipe) ctx;
          r = renderTemplate (readmeTemplate recipe) ctx
      in case performAll rt
                [Mkdir pdir,
                 WriteFile (pathJoin [pdir, ''docker-compose.yml'']) c,
                 WriteFile (pathJoin [pdir, ''.env'']) e,
                 WriteFile (pathJoin [pdir, ''README.md'']) r] [] of
           (tr1, Some err) \<Rightarrow> (tr1, Inl err)
         | (tr1, None) \<Rightarrow>
             (case writeSeedFiles rt pdir ctx (seedFiles recipe) tr1 of
                (tr2, Some err) \<Rightarrow> (tr2, Inl err)
              | (tr2, None) \<Rightarrow>
                  (case writeExtraFiles rt pdir ctx (extraFiles recipe) tr2 of
                     (tr3, Some err) \<Rightarrow> (tr3, Inl err)
                   | (tr3, None) \<Rightarrow>
                       (tr3, Inr \<lparr>projectDir = pdir,
                                  files = \<lparr>compose = c, env = e, readme = r\<rparr>\<rparr>))))"

text \<open>\<^verbatim>\<open>getMissingRequired\<close>; \<^verbatim>\<open>!s\<close> on a string holds exactly for the empty string.\<close>

definition getMissingRequired :: "Recipe \<Rightarrow> (string \<rightharpoonup> string) \<Rightarrow> string list" where
  "getMissingRequired recipe vars =
     map key
       (filter (\<lambda>variable. required variable \<and>
                  (case getProp vars (key variable) of Some x \<Rightarrow> x | None \<Rightarrow> default_value variable) = [])
          (variables recipe))"

text \<open>
  \<^verbatim>\<open>redactVariables\<close>: the loop assigns into \<^verbatim>\<open>redacted\<close> in declaration order;
  \<^verbatim>\<open>if (variable.secret)\<close> holds exactly where the flag is present and true.
\<close>

definition redactVariables :: "Recipe \<Rightarrow> (string \<rightharpoonup> string) \<Rightarrow> (string \<rightharpoonup> string)" where
  "redactVariables recipe vars =
     foldl (\<lambda>redacted variable.
              if secret variable = Some True then redacted(key variable \<mapsto> ''***'')
              else redacted(key variable \<mapsto>
                     (case getProp vars (key variable) of Some x \<Rightarrow> x | None \<Rightarrow> default_value variable)))
       Map.empty (variables recipe)"

section \<open>The generation index (\<^verbatim>\<open>generated.ts\<close>)\<close>

record GeneratedRecord =
  projectName :: string
  recipeId :: string
  createdAt :: string
  record_path :: string
  record_variables :: "string \<rightharpoonup> string"

text \<open>
  The index file, by what \<^verbatim>\<open>readFile\<close> and \<^verbatim>\<open>JSON.parse\<close> make of it: reading or
  parsing fails, or the parsed value is not an array, or it is the array of records that
  an earlier \<^verbatim>\<open>JSON.stringify\<close> wrote.
\<close>

datatype index_file = Unreadable | NotAnArray | Stored "GeneratedRecord list"

definition readGeneratedIndex :: "index_file \<Rightarrow> GeneratedRecord list" where
  "readGeneratedIndex f = (case f of Stored records \<Rightarrow> records | _ \<Rightarrow> [])"

text \<open>\<^verbatim>\<open>appendGeneratedRecord\<close>: the index file after the call.\<close>

definition appendGeneratedRecord :: "GeneratedRecord \<Rightarrow> index_file \<Rightarrow> index_file" where
  "appendGeneratedRecord record f =
     (let existing = readGeneratedIndex f;
          updated = take 100 (record # existing)
      in Stored updated)"

section \<open>Reference formulations and example data\<close>

text \<open>
  The value a variable contributes to the context and to the redacted record, as the
  three functions of \<^verbatim>\<open>generator.ts\<close> compute it with \<^verbatim>\<open>??\<close>: the override where one
  is present, the declared default where none is.
\<close>

definition effectiveValue :: "RecipeVariable \<Rightarrow> (string \<rightharpoonup> string) \<Rightarrow> string" where
  "effectiveValue v vars = (case vars (key v) of Some x \<Rightarrow> x | None \<Rightarrow> default_value v)"

text \<open>
  The effective value in the words of the specification of the Variable Binder: the
  override if present and non-empty, else the variable's default.
\<close>

definition effective_spec :: "RecipeVariable \<Rightarrow> (string \<rightharpoonup> string) \<Rightarrow> string" where
  "effective_spec v vars =
     (case vars (key v) of
        Some x \<Rightarrow> if x \<noteq> [] then x else default_value v
      | None \<Rightarrow> default_value v)"

text \<open>
  \<^verbatim>\<open>missingRequired\<close> in the words of the specification: the keys, in declaration order,
  of the required variables for which neither an override nor a non-empty default
  resolves to a non-empty string.
\<close>

definition missingRequired_spec :: "Recipe \<Rightarrow> (string \<rightharpoonup> string) \<Rightarrow> string list" where
  "missingRequired_spec recipe vars =
     map key
       (filter (\<lambda>v. required v \<and>
                  \<not> (case vars (key v) of Some x \<Rightarrow> x \<noteq> [] | None \<Rightarrow> False) \<and>
                  \<not> default_value v \<noteq> [])
          (variables recipe))"

text \<open>The keys of the variables flagged secret.\<close>

definition secretKeys :: "Recipe \<Rightarrow> string set" where
  "secretKeys recipe = set (map key (filter (\<lambda>v. secret v = Some True) (variables recipe)))"

text \<open>
  Lexical containment of a path in a directory: the segments of the directory are the
  first segments of the path.
\<close>

definition pathSegments :: "string \<Rightarrow> string list" where
  "pathSegments p = filter (\<lambda>seg. seg \<noteq> []) (splitOn CHR ''/'' p)"

definition containedIn :: "string \<Rightarrow> string \<Rightarrow> bool" where
  "containedIn base p = prefix (pathSegments base) (pathSegments p)"

text \<open>Example recipes and an example runtime whose file system accepts every call.\<close>

definition mkVariable :: "string \<Rightarrow> string \<Rightarrow> bool \<Rightarrow> bool option \<Rightarrow> RecipeVariable" where
  "mkVariable k d req sec =
     \<lparr>key = k, label = k, default_value = d, required = req, options = None, secret = sec,
      description = None\<rparr>"

definition mkRecipe ::
  "RecipeVariable list \<Rightarrow> string \<Rightarrow> RecipeFile list option \<Rightarrow> RecipeFile list option \<Rightarrow> Recipe" where
  "mkRecipe vs composeT seeds extras =
     \<lparr>recipe_id = ''demo'', recipe_name = ''Demo'', recipe_description = ''A demo lab'',
      tags = [''demo''], difficulty = Easy, variables = vs, composeTemplate = composeT,
      envTemplate = ''MODE=lab'', readmeTemplate = ''# {{projectName}}'', seedFiles = seeds,
      extraFiles = extras\<rparr>"

definition demoRuntime :: runtime where
  "demoRuntime = \<lparr>cwd = ''/srv/lab'', generatedDir = ''/srv/lab/generated'', fs_accepts = (\<lambda>tr op. True)\<rparr>"

definition tagRecipe :: Recipe where
  "tagRecipe = mkRecipe [mkVariable ''TAG'' ''latest'' False None] ''image: {{TAG}}'' None None"

definition dbPassRecipe :: Recipe where
  "dbPassRecipe = mkRecipe [mkVariable ''DB_PASS'' [] True None] ''image: demo'' None None"

definition secretRecipe :: Recipe where
  "secretRecipe = mkRecipe [mkVariable ''DB_PASS'' ''changeme'' True (Some True),
     mkVariable ''PORT'' ''80'' False None] ''image: demo'' None None"

definition dupRecipe :: Recipe where
  "dupRecipe = mkRecipe [mkVariable ''DB_PASS'' ''changeme'' True (Some True),
     mkVariable ''DB_PASS'' ''changeme'' False None] ''image: demo'' None None"

definition escapeRecipe :: Recipe where
  "escapeRecipe = mkRecipe [mkVariable ''NAME'' ''lab'' False None] ''image: demo''
     (Some [\<lparr>path = ''init/{{NAME}}.sql'', content = ''create database {{NAME}};''\<rparr>])
     (Some [\<lparr>path = ''conf/app.conf'', content = ''name={{NAME}}''\<rparr>,
            \<lparr>path = ''../../etc/passwd'', content = ''root''\<rparr>,
            \<lparr>path = ''notes.txt'', content = ''never written''\<rparr>])"

definition seededRecipe :: Recipe where
  "seededRecipe = mkRecipe [mkVariable ''NAME'' ''lab'' False None] ''image: demo''
     (Some [\<lparr>path = ''init/{{NAME}}.sql'', content = ''create database {{NAME}};''\<rparr>,
            \<lparr>path = ''rows.csv'', content = ''1,2''\<rparr>])
     (Some [\<lparr>path = ''conf/app.conf'', content = ''name={{NAME}}''\<rparr>,
            \<lparr>path = ''notes.txt'', content = ''for {{projectName}}''\<rparr>])"

definition siblingRecipe :: Recipe where
  "siblingRecipe = mkRecipe [mkVariable ''DEST'' ''out'' False None] ''image: demo'' None
     (Some [\<lparr>path = ''{{DEST}}/owned.txt'', content = ''from {{projectName}}''\<rparr>])"

text \<open>
  A path in normal form: absolute, its segments non-empty and none of them \<^verbatim>\<open>.\<close> or
  \<^verbatim>\<open>..\<close>. \<^verbatim>\<open>paths.generatedDir\<close> is the result of \<^verbatim>\<open>path.join\<close> on an absolute
  directory and has this form.
\<close>

definition plainSegment :: "string \<Rightarrow> bool" where
  "plainSegment seg = (seg \<noteq> [] \<and> seg \<noteq> ''.'' \<and> seg \<noteq> ''..'' \<and> CHR ''/'' \<notin> set seg)"

definition normalAbsolute :: "string \<Rightarrow> bool" where
  "normalAbsolute p =
     (case p of
        [] \<Rightarrow> False
      | c # r \<Rightarrow> c = CHR ''/'' \<and> list_all plainSegment (splitOn CHR ''/'' r))"

text \<open>
  The seed files followed by the extra files, in declaration order, as one sequence; for
  each of them the verdict of the sandbox on its rendered path: the error, or the target
  path together with the rendered content.
\<close>

definition seedList :: "Recipe \<Rightarrow> RecipeFile list" where
  "seedList recipe = (case seedFiles recipe of None \<Rightarrow> [] | Some fs \<Rightarrow> fs)"

definition extraList :: "Recipe \<Rightarrow> RecipeFile list" where
  "extraList recipe = (case extraFiles recipe of None \<Rightarrow> [] | Some fs \<Rightarrow> fs)"

definition projectDirOf :: "runtime \<Rightarrow> string \<Rightarrow> string" where
  "projectDirOf rt pn = pathJoin [generatedDir rt, pn]"

definition fileTarget ::
  "runtime \<Rightarrow> string \<Rightarrow> (string \<Rightarrow> string) \<Rightarrow> (string \<rightharpoonup> string) \<Rightarrow> RecipeFile \<Rightarrow>
   gen_error + string \<times> string" where
  "fileTarget rt pdir rel ctx f =
     (case safeJoin (cwd rt) pdir (rel (renderTemplate (path f) ctx)) of
        Inl e \<Rightarrow> Inl e
      | Inr targetPath \<Rightarrow> Inr (targetPath, renderTemplate (content f) ctx))"

definition declaredTargets ::
  "runtime \<Rightarrow> Recipe \<Rightarrow> string \<Rightarrow> (string \<rightharpoonup> string) \<Rightarrow> (gen_error + string \<times> string) list" where
  "declaredTargets rt recipe pn vars =
     map (fileTarget rt (projectDirOf rt pn) (\<lambda>renderedPath. pathJoin [''seed'', renderedPath])
            (buildContext recipe pn vars)) (seedList recipe) @
     map (fileTarget rt (projectDirOf rt pn) (\<lambda>renderedPath. renderedPath)
            (buildContext recipe pn vars)) (extraList recipe)"

text \<open>The file-system calls made for one file, and the writes among the calls of a run.\<close>

definition targetCalls :: "gen_error + string \<times> string \<Rightarrow> fs_op list" where
  "targetCalls t = (case t of Inl e \<Rightarrow> [] | Inr (p, c) \<Rightarrow> [Mkdir (pathDirname p), WriteFile p c])"

definition fileWrites :: "(gen_error + string \<times> string) list \<Rightarrow> fs_op list" where
  "fileWrites ts = concat (map (\<lambda>t. case t of Inl e \<Rightarrow> [] | Inr (p, c) \<Rightarrow> [WriteFile p c]) ts)"

definition isWriteFile :: "fs_op \<Rightarrow> bool" where
  "isWriteFile op = (case op of WriteFile p c \<Rightarrow> True | Mkdir p \<Rightarrow> False)"

text \<open>The three writes of the rendered compose, env and readme templates.\<close>

definition mainWrites :: "runtime \<Rightarrow> Recipe \<Rightarrow> string \<Rightarrow> (string \<rightharpoonup> string) \<Rightarrow> fs_op list" where
  "mainWrites rt recipe pn vars =
     [WriteFile (pathJoin [projectDirOf rt pn, ''docker-compose.yml''])
        (renderTemplate (composeTemplate recipe) (buildContext recipe pn vars)),
      WriteFile (pathJoin [projectDirOf rt pn, ''.env''])
        (renderTemplate (envTemplate recipe) (buildContext recipe pn vars)),
      WriteFile (pathJoin [projectDirOf rt pn, ''README.md''])
        (renderTemplate (readmeTemplate recipe) (buildContext recipe pn vars))]"

text \<open>The definitions unfolded to evaluate a run on concrete data.\<close>

lemmas eval_defs = generateProject_def buildContext_def fromEntries_def mkRecipe_def mkVariable_def
  demoRuntime_def pathJoin_def pathNormalize_def normalizeString_def normalizeStep_def
  writeSeedFiles_def writeExtraFiles_def safeJoin_def pathResolve_def pathDirname_def
  matchToken_def closeToken_def isKeyChar_def isUpper_def isLower_def isDigit_def isSpace_def Let_def
  getProp_def objectPrototype_def objectPrototypeTable_def

section \<open>Properties of the renderer\<close>

lemma lbrace_not_space: "\<not> isSpace CHR ''{''"
  by (simp add: isSpace_def)

lemma lbrace_not_key: "\<not> isKeyChar CHR ''{''"
  by (simp add: isKeyChar_def isUpper_def isLower_def isDigit_def)

lemma rbrace_not_space: "\<not> isSpace CHR ''}''"
  by (simp add: isSpace_def)

lemma rbrace_not_key: "\<not> isKeyChar CHR ''}''"
  by (simp add: isKeyChar_def isUpper_def isLower_def isDigit_def)

lemma space_not_key: "isSpace c \<Longrightarrow> \<not> isKeyChar c"
  by (auto simp: isSpace_def isKeyChar_def isUpper_def isLower_def isDigit_def)

lemma dropWhile_stop: "\<not> P x \<Longrightarrow> dropWhile P (xs @ x # ys) = dropWhile P xs @ x # ys"
  by (induction xs) auto

lemma takeWhile_stop: "\<not> P x \<Longrightarrow> takeWhile P (xs @ x # ys) = takeWhile P xs"
  by (induction xs) auto

lemma dropWhile_all: "list_all P xs \<Longrightarrow> \<not> P x \<Longrightarrow> dropWhile P (xs @ x # ys) = x # ys"
  by (induction xs) auto

lemma takeWhile_all: "list_all P xs \<Longrightarrow> \<not> P x \<Longrightarrow> takeWhile P (xs @ x # ys) = xs"
  by (induction xs) auto

lemma matchToken_open:
  "matchToken (CHR ''{'' # CHR ''{'' # r) =
     (if takeWhile isKeyChar (dropWhile isSpace r) = [] then None
      else closeToken (takeWhile isKeyChar (dropWhile isSpace r))
             (dropWhile isSpace (dropWhile isKeyChar (dropWhile isSpace r))))"
  by (simp add: matchToken_def Let_def)

text \<open>A well-formed token at the head of the text is matched, whatever follows it.\<close>

lemma matchToken_token:
  assumes "k \<noteq> []" "list_all isKeyChar k" "list_all isSpace ws1" "list_all isSpace ws2"
  shows "matchToken (''{{'' @ ws1 @ k @ ws2 @ ''}}'' @ post) = Some (k, post)"
proof -
  let ?E = "CHR ''}'' # CHR ''}'' # post"
  obtain a k' where k: "k = a # k'" using assms(1) by (cases k) auto
  have a: "\<not> isSpace a" using assms(2) k space_not_key by auto
  have r1: "dropWhile isSpace (ws1 @ k @ ws2 @ ?E) = k @ ws2 @ ?E"
    using dropWhile_all [OF assms(3) a] k by simp
  obtain w rest where w: "ws2 @ ?E = w # rest" "\<not> isKeyChar w"
    using assms(4) space_not_key rbrace_not_key by (cases ws2) auto
  have kk: "takeWhile isKeyChar (k @ ws2 @ ?E) = k"
    using takeWhile_all [OF assms(2) w(2)] w(1) by simp
  have r2: "dropWhile isKeyChar (k @ ws2 @ ?E) = ws2 @ ?E"
    using dropWhile_all [OF assms(2) w(2)] w(1) by simp
  have r3: "dropWhile isSpace (ws2 @ ?E) = ?E"
    using dropWhile_all [OF assms(4) rbrace_not_space] by simp
  have "matchToken (CHR ''{'' # CHR ''{'' # ws1 @ k @ ws2 @ ?E) = Some (k, post)"
    unfolding matchToken_open r1 kk r2 r3 using assms(1) by (simp add: closeToken_def)
  then show ?thesis by simp
qed

lemma closeToken_before_brace:
  "closeToken k (r3 @ CHR ''{'' # y) =
     map_option (\<lambda>(k, rest). (k, rest @ CHR ''{'' # y)) (closeToken k r3)"
proof (cases r3)
  case Nil
  then show ?thesis by (simp add: closeToken_def split: list.splits)
next
  case (Cons d1 t)
  then show ?thesis by (cases t) (simp_all add: closeToken_def)
qed

text \<open>
  A match that starts before an opening \<^verbatim>\<open>{{\<close> ends before it: text that is put in
  front of a token neither swallows the token nor is matched differently because of it.
\<close>

lemma matchToken_before_braces:
  assumes "s \<noteq> []"
  shows "matchToken (s @ CHR ''{'' # CHR ''{'' # y) =
         map_option (\<lambda>(k, rest). (k, rest @ CHR ''{'' # CHR ''{'' # y)) (matchToken s)"
proof (cases s)
  case Nil
  with assms show ?thesis by simp
next
  case (Cons c1 s1)
  note s = this
  show ?thesis
  proof (cases s1)
    case Nil
    with s show ?thesis
      by (simp add: matchToken_def lbrace_not_space lbrace_not_key)
  next
    case (Cons c2 r)
    note s1 = this
    show ?thesis
    proof (cases "c1 = CHR ''{'' \<and> c2 = CHR ''{''")
      case False
      with s s1 show ?thesis by (auto simp: matchToken_def)
    next
      case True
      let ?X = "CHR ''{'' # CHR ''{'' # y"
      let ?r1 = "dropWhile isSpace r"
      let ?k = "takeWhile isKeyChar ?r1"
      let ?r2 = "dropWhile isKeyChar ?r1"
      let ?r3 = "dropWhile isSpace ?r2"
      have e1: "dropWhile isSpace (r @ ?X) = ?r1 @ ?X"
        by (rule dropWhile_stop [of isSpace, OF lbrace_not_space])
      have e2: "takeWhile isKeyChar (?r1 @ ?X) = ?k"
        by (rule takeWhile_stop [of isKeyChar, OF lbrace_not_key])
      have e3: "dropWhile isKeyChar (?r1 @ ?X) = ?r2 @ ?X"
        by (rule dropWhile_stop [of isKeyChar, OF lbrace_not_key])
      have e4: "dropWhile isSpace (?r2 @ ?X) = ?r3 @ ?X"
        by (rule dropWhile_stop [of isSpace, OF lbrace_not_space])
      have "matchToken (CHR ''{'' # CHR ''{'' # (r @ ?X)) =
            (if ?k = [] then None else closeToken ?k (?r3 @ ?X))"
        unfolding matchToken_open e1 e2 e3 e4 ..
      also have "\<dots> = map_option (\<lambda>(k, rest). (k, rest @ ?X)) (matchToken (CHR ''{'' # CHR ''{'' # r))"
        unfolding matchToken_open closeToken_before_brace by simp
      finally show ?thesis using True s s1 by simp
    qed
  qed
qed

lemma renderTemplate_before_token:
  assumes "k \<noteq> []" "list_all isKeyChar k" "list_all isSpace ws1" "list_all isSpace ws2"
  shows "renderTemplate (pre @ ''{{'' @ ws1 @ k @ ws2 @ ''}}'' @ post) ctx =
         renderTemplate pre ctx @ (case getProp ctx k of Some v \<Rightarrow> v | None \<Rightarrow> []) @ renderTemplate post ctx"
proof (induction pre ctx rule: renderTemplate.induct)
  case (1 ctx)
  have "matchToken (CHR ''{'' # CHR ''{'' # ws1 @ k @ ws2 @ ''}}'' @ post) = Some (k, post)"
    using matchToken_token [OF assms, of post] by simp
  then show ?case by simp
next
  case (2 c cs ctx)
  let ?X = "CHR ''{'' # CHR ''{'' # ws1 @ k @ ws2 @ ''}}'' @ post"
  have m: "matchToken (c # cs @ ?X) =
           map_option (\<lambda>(k, rest). (k, rest @ ?X)) (matchToken (c # cs))"
    using matchToken_before_braces [of "c # cs" "ws1 @ k @ ws2 @ ''}}'' @ post"] by simp
  show ?case
  proof (cases "matchToken (c # cs)")
    case None
    have "renderTemplate (cs @ ?X) ctx =
          renderTemplate cs ctx @ (case getProp ctx k of Some v \<Rightarrow> v | None \<Rightarrow> []) @ renderTemplate post ctx"
      using 2(1) [OF None] by simp
    then show ?thesis using m None by simp
  next
    case (Some a)
    then obtain k' rest where m1: "matchToken (c # cs) = Some (k', rest)" by (cases a) simp
    have "renderTemplate (rest @ ?X) ctx =
          renderTemplate rest ctx @ (case getProp ctx k of Some v \<Rightarrow> v | None \<Rightarrow> []) @ renderTemplate post ctx"
      using 2(2) [OF m1 refl] by simp
    then show ?thesis using m m1 by simp
  qed
qed

text \<open>
  Claim C4. \<open>renderTemplate\<close> is a total function with no error result, and a token whose
  key is bound in the context is replaced by the bound value (\<open>renderTemplate_before_token\<close>).
  A token whose key is not bound is replaced by the empty string only when the key is not
  the name of an inherited property: for the template \<^verbatim>\<open>{{constructor}}\<close> and the empty
  context, \<^verbatim>\<open>context[key]\<close> is the function \<^verbatim>\<open>Object\<close>, which is not \<^verbatim>\<open>undefined\<close>, and the
  output is the string form of that function.
\<close>

theorem renderTemplate_inherited_property:
  "renderTemplate ''{{constructor}}'' Map.empty = ''function Object() { [native code] }'' \<and>
   renderTemplate ''{{constructor}}'' Map.empty \<noteq> []"
  by (simp add: matchToken_def closeToken_def isKeyChar_def isUpper_def isLower_def isDigit_def
      isSpace_def getProp_def objectPrototype_def objectPrototypeTable_def)

text \<open>For a key that is no inherited property name, an unbound token does render as nothing.\<close>

lemma renderTemplate_unbound_token:
  assumes "k \<noteq> []" "list_all isKeyChar k" "list_all isSpace ws1" "list_all isSpace ws2"
    and "ctx k = None" "objectPrototype k = None"
  shows "renderTemplate (pre @ ''{{'' @ ws1 @ k @ ws2 @ ''}}'' @ post) ctx =
           renderTemplate pre ctx @ renderTemplate post ctx"
  using renderTemplate_before_token [OF assms(1-4), of pre post ctx] assms(5,6)
  by (simp add: getProp_def)

text \<open>Text without an opening brace holds no token and is rendered as it is.\<close>

lemma renderTemplate_plain_text: "CHR ''{'' \<notin> set t \<Longrightarrow> renderTemplate t ctx = t"
proof (induction t)
  case Nil
  then show ?case by simp
next
  case (Cons c cs)
  then have "matchToken (c # cs) = None"
    by (auto simp: matchToken_def split: list.splits)
  with Cons show ?case by simp
qed

text \<open>
  Claim C5. No recursive expansion: wherever a token stands in a template, with any text
  and any other tokens before and after it, the value bound to its key is emitted as it
  is, also when it looks like a token, and the rendering of the text after it starts
  behind the value. Between text without braces the output is that text around the
  value. For the context \<^verbatim>\<open>{A: "{{B}}"}\<close> and the template \<^verbatim>\<open>{{A}}\<close> the output is
  the text \<^verbatim>\<open>{{B}}\<close>, whatever the context binds to \<open>B\<close> and to any other key.
\<close>

theorem renderTemplate_no_recursive_expansion:
  assumes "k \<noteq> []" and "list_all isKeyChar k"
    and "list_all isSpace ws1" and "list_all isSpace ws2"
  shows "renderTemplate (pre @ ''{{'' @ ws1 @ k @ ws2 @ ''}}'' @ post) (ctx(k \<mapsto> v)) =
           renderTemplate pre (ctx(k \<mapsto> v)) @ v @ renderTemplate post (ctx(k \<mapsto> v)) \<and>
         (CHR ''{'' \<notin> set pre \<and> CHR ''{'' \<notin> set post \<longrightarrow>
            renderTemplate (pre @ ''{{'' @ ws1 @ k @ ws2 @ ''}}'' @ post) (ctx(k \<mapsto> v)) =
              pre @ v @ post) \<and>
         renderTemplate (''{{'' @ k @ ''}}'') (ctx(k \<mapsto> v)) = v"
proof -
  have g: "getProp (ctx(k \<mapsto> v)) k = Some v" by (simp add: getProp_def)
  have a: "renderTemplate (pre @ ''{{'' @ ws1 @ k @ ws2 @ ''}}'' @ post) (ctx(k \<mapsto> v)) =
           renderTemplate pre (ctx(k \<mapsto> v)) @ v @ renderTemplate post (ctx(k \<mapsto> v))"
    unfolding renderTemplate_before_token [OF assms] g by simp
  have b: "CHR ''{'' \<notin> set pre \<and> CHR ''{'' \<notin> set post \<longrightarrow>
            renderTemplate (pre @ ''{{'' @ ws1 @ k @ ws2 @ ''}}'' @ post) (ctx(k \<mapsto> v)) =
              pre @ v @ post"
    unfolding a by (simp add: renderTemplate_plain_text)
  have "renderTemplate ([] @ ''{{'' @ [] @ k @ [] @ ''}}'' @ []) (ctx(k \<mapsto> v)) =
          renderTemplate [] (ctx(k \<mapsto> v)) @
          (case getProp (ctx(k \<mapsto> v)) k of Some v \<Rightarrow> v | None \<Rightarrow> []) @
          renderTemplate [] (ctx(k \<mapsto> v))"
    using assms(1,2) by (intro renderTemplate_before_token) simp_all
  then have c: "renderTemplate (''{{'' @ k @ ''}}'') (ctx(k \<mapsto> v)) = v"
    unfolding g by simp
  from a b c show ?thesis by (intro conjI)
qed

theorem renderTemplate_no_recursive_expansion_witness:
  "''A'' \<noteq> [] \<and> list_all isKeyChar ''A'' \<and> list_all isSpace [] \<and> list_all isSpace '' '' \<and>
   renderTemplate ''{{A}}'' [''B'' \<mapsto> ''value of B'', ''A'' \<mapsto> ''{{B}}''] = ''{{B}}'' \<and>
   renderTemplate ''x{{A }}y'' [''B'' \<mapsto> ''value of B'', ''A'' \<mapsto> ''{{B}}''] = ''x{{B}}y'' \<and>
   renderTemplate ''{{B}}, {{A }}{{A }}'' [''B'' \<mapsto> ''value of B'', ''A'' \<mapsto> ''{{B}}''] =
     ''value of B, {{B}}{{B}}''"
proof -
  let ?ctx = "[''B'' \<mapsto> ''value of B'']"
  let ?c = "[''B'' \<mapsto> ''value of B'', ''A'' \<mapsto> ''{{B}}'']"
  have h: "''A'' \<noteq> []" "list_all isKeyChar ''A''" "list_all isSpace []" "list_all isSpace '' ''"
    by (simp_all add: isKeyChar_def isUpper_def isLower_def isDigit_def isSpace_def)
  have p: "CHR ''{'' \<notin> set ''x'' \<and> CHR ''{'' \<notin> set ''y''" by simp
  have pre: "renderTemplate ''{{B}}, '' ?c = ''value of B, ''"
    by (simp add: matchToken_def closeToken_def isKeyChar_def isUpper_def isLower_def isDigit_def
        isSpace_def getProp_def)
  note t1 = renderTemplate_no_recursive_expansion [OF h(1) h(2) h(3) h(3), of "[]" "[]" ?ctx "''{{B}}''"]
  note t2 = renderTemplate_no_recursive_expansion [OF h(1) h(2) h(3) h(4), of "''x''" "''y''" ?ctx "''{{B}}''"]
  note t3 = renderTemplate_no_recursive_expansion [OF h(1) h(2) h(3) h(4), of "[]" "[]" ?ctx "''{{B}}''"]
  note t4 = renderTemplate_no_recursive_expansion [OF h(1) h(2) h(3) h(4),
      of "''{{B}}, ''" "''{{A }}''" ?ctx "''{{B}}''"]
  have a: "renderTemplate ''{{A}}'' ?c = ''{{B}}''"
    using t1 by simp
  have b: "renderTemplate ''x{{A }}y'' ?c = ''x{{B}}y''"
    using conjunct1 [OF conjunct2 [OF t2]] p by simp
  have c3: "renderTemplate ''{{A }}'' ?c = ''{{B}}''"
    using conjunct1 [OF conjunct2 [OF t3]] by simp
  have c: "renderTemplate ''{{B}}, {{A }}{{A }}'' ?c = ''value of B, {{B}}{{B}}''"
    using conjunct1 [OF t4] unfolding pre c3 by simp
  from h a b c show ?thesis by (intro conjI)
qed

section \<open>Properties of the path sandbox\<close>

text \<open>
  Claim C1. \<open>safeJoin\<close> compares strings, not path segments: a sibling directory whose
  name continues the name of the base passes the check. With the base
  \<^verbatim>\<open>/root/gen/proj\<close> and the target \<^verbatim>\<open>../proj2/x\<close> it returns \<^verbatim>\<open>/root/gen/proj2/x\<close>,
  which is not contained in the base. In a run of \<open>generateProject\<close> for the project
  \<^verbatim>\<open>proj\<close>, an extra file whose path renders to \<^verbatim>\<open>../proj2/owned.txt\<close> is written into
  the directory of the project \<^verbatim>\<open>proj2\<close>.
\<close>

theorem safeJoin_accepts_sibling_with_shared_prefix:
  "safeJoin ''/srv/lab'' ''/root/gen/proj'' ''../proj2/x'' = Inr ''/root/gen/proj2/x'' \<and>
   \<not> containedIn ''/root/gen/proj'' ''/root/gen/proj2/x'' \<and>
   generateProject demoRuntime siblingRecipe ''proj'' [''DEST'' \<mapsto> ''../proj2''] =
     ([Mkdir ''/srv/lab/generated/proj'',
       WriteFile ''/srv/lab/generated/proj/docker-compose.yml'' ''image: demo'',
       WriteFile ''/srv/lab/generated/proj/.env'' ''MODE=lab'',
       WriteFile ''/srv/lab/generated/proj/README.md'' ''# proj'',
       Mkdir ''/srv/lab/generated/proj2'',
       WriteFile ''/srv/lab/generated/proj2/owned.txt'' ''from proj''],
      Inr \<lparr>projectDir = ''/srv/lab/generated/proj'',
           files = \<lparr>compose = ''image: demo'', env = ''MODE=lab'', readme = ''# proj''\<rparr>\<rparr>) \<and>
   \<not> containedIn ''/srv/lab/generated/proj'' ''/srv/lab/generated/proj2/owned.txt''"
proof -
  have a: "safeJoin ''/srv/lab'' ''/root/gen/proj'' ''../proj2/x'' = Inr ''/root/gen/proj2/x''"
    by (simp add: safeJoin_def pathResolve_def normalizeString_def normalizeStep_def)
  have b: "\<not> containedIn ''/root/gen/proj'' ''/root/gen/proj2/x''"
    by (simp add: containedIn_def pathSegments_def)
  have c: "generateProject demoRuntime siblingRecipe ''proj'' [''DEST'' \<mapsto> ''../proj2''] =
     ([Mkdir ''/srv/lab/generated/proj'',
       WriteFile ''/srv/lab/generated/proj/docker-compose.yml'' ''image: demo'',
       WriteFile ''/srv/lab/generated/proj/.env'' ''MODE=lab'',
       WriteFile ''/srv/lab/generated/proj/README.md'' ''# proj'',
       Mkdir ''/srv/lab/generated/proj2'',
       WriteFile ''/srv/lab/generated/proj2/owned.txt'' ''from proj''],
      Inr \<lparr>projectDir = ''/srv/lab/generated/proj'',
           files = \<lparr>compose = ''image: demo'', env = ''MODE=lab'', readme = ''# proj''\<rparr>\<rparr>)"
    by (simp add: eval_defs siblingRecipe_def)
  have d: "\<not> containedIn ''/srv/lab/generated/proj'' ''/srv/lab/generated/proj2/owned.txt''"
    by (simp add: containedIn_def pathSegments_def)
  from a b c d show ?thesis by (intro conjI)
qed

text \<open>The two examples of the specification: an escape through \<^verbatim>\<open>..\<close> and a seed path.\<close>

lemma safeJoin_rejects_dotdot_escape:
  "safeJoin ''/srv/lab'' ''/root/gen/proj'' ''../../etc/passwd'' = Inl (InvalidFilePath ''../../etc/passwd'')"
  by (simp add: safeJoin_def pathResolve_def normalizeString_def normalizeStep_def)

lemma safeJoin_accepts_seed_path:
  "safeJoin ''/srv/lab'' ''/root/gen/proj'' ''seed/a.sql'' = Inr ''/root/gen/proj/seed/a.sql''"
  by (simp add: safeJoin_def pathResolve_def normalizeString_def normalizeStep_def)

text \<open>What the check does guarantee: an accepted path has the base as a string prefix.\<close>

lemma safeJoin_prefix: "safeJoin wd base target = Inr p \<Longrightarrow> prefix base p"
  by (auto simp: safeJoin_def Let_def split: if_splits)

section \<open>Properties of the variable binder\<close>

lemma foldl_upd_map_of:
  "foldl (\<lambda>m x. m(kf x \<mapsto> vf x)) m0 xs = m0 ++ map_of (rev (map (\<lambda>x. (kf x, vf x)) xs))"
proof (induction xs arbitrary: m0)
  case Nil
  then show ?case by simp
next
  case (Cons x xs)
  let ?M = "map_of (rev (map (\<lambda>x. (kf x, vf x)) xs))"
  have "foldl (\<lambda>m x. m(kf x \<mapsto> vf x)) m0 (x # xs) = (m0(kf x \<mapsto> vf x)) ++ ?M"
    unfolding foldl_Cons by (rule Cons.IH)
  also have "\<dots> = m0 ++ ([kf x \<mapsto> vf x] ++ ?M)"
    by (rule ext) (simp add: map_add_def split: option.splits)
  also have "[kf x \<mapsto> vf x] ++ ?M = map_of (rev (map (\<lambda>x. (kf x, vf x)) (x # xs)))"
    by simp
  finally show ?case .
qed

lemma foldl_upd_distinct:
  assumes "distinct (map kf xs)" "x \<in> set xs"
  shows "foldl (\<lambda>m x. m(kf x \<mapsto> vf x)) m0 xs (kf x) = Some (vf x)"
proof -
  have d: "distinct (map fst (rev (map (\<lambda>x. (kf x, vf x)) xs)))"
    using assms(1) by (simp add: rev_map [symmetric] comp_def)
  have "(kf x, vf x) \<in> set (rev (map (\<lambda>x. (kf x, vf x)) xs))"
    using assms(2) by auto
  then have "map_of (rev (map (\<lambda>x. (kf x, vf x)) xs)) (kf x) = Some (vf x)"
    using d by (simp only: map_of_eq_Some_iff)
  then show ?thesis by (simp add: foldl_upd_map_of map_add_def)
qed

lemma foldl_upd_dom:
  "dom (foldl (\<lambda>m x. m(kf x \<mapsto> vf x)) m0 xs) = dom m0 \<union> kf ` set xs"
  by (induction xs arbitrary: m0) auto

lemma fromEntries_eq:
  "fromEntries (map (\<lambda>x. (kf x, vf x)) xs) = foldl (\<lambda>m x. m(kf x \<mapsto> vf x)) Map.empty xs"
  by (simp add: fromEntries_def foldl_map)

text \<open>
  A key matching the variable-key pattern starts with an upper-case letter, and no
  inherited property name does: reading such a key finds own properties only.
\<close>

lemma objectPrototype_names_lower:
  "list_all (\<lambda>n. \<not> variableKeyRegex n) (map fst objectPrototypeTable)"
  by (simp add: objectPrototypeTable_def variableKeyRegex_def isUpper_def)

lemma objectPrototype_not_variable_key:
  assumes "variableKeyRegex k"
  shows "objectPrototype k = None"
proof -
  have "k \<notin> set (map fst objectPrototypeTable)"
    using assms objectPrototype_names_lower unfolding list_all_iff by blast
  then show ?thesis
    unfolding objectPrototype_def by (simp add: map_of_eq_None_iff)
qed

lemma getProp_variable_key: "variableKeyRegex k \<Longrightarrow> getProp obj k = obj k"
  by (simp add: getProp_def objectPrototype_not_variable_key split: option.splits)

lemma RecipeSchema_keys: "RecipeSchema recipe \<Longrightarrow> v \<in> set (variables recipe) \<Longrightarrow> variableKeyRegex (key v)"
  by (auto simp: RecipeSchema_def RecipeVariableSchema_def list_all_iff)

lemma redactVariables_eq:
  "redactVariables recipe vars =
     foldl (\<lambda>m v. m(key v \<mapsto> (if secret v = Some True then ''***''
                                 else (case getProp vars (key v) of Some x \<Rightarrow> x | None \<Rightarrow> default_value v))))
       Map.empty (variables recipe)"
  unfolding redactVariables_def by (rule foldl_cong) auto

text \<open>
  Claim C2, as the code has it. In a recipe accepted by the schema whose variable keys are
  unique, the context binds the key of each declared variable to the override where the
  caller supplied one, also when that override is the empty string, and to the variable's
  declared default where the caller supplied none.
\<close>

theorem buildContext_binds_declared_keys:
  assumes "RecipeSchema recipe" and "distinct (map key (variables recipe))"
    and "v \<in> set (variables recipe)"
  shows "buildContext recipe pn vars (key v) =
           Some (case vars (key v) of Some x \<Rightarrow> x | None \<Rightarrow> default_value v)"
proof -
  have "getProp vars (key v) = vars (key v)"
    using RecipeSchema_keys [OF assms(1,3)] by (rule getProp_variable_key)
  then show ?thesis
    unfolding buildContext_def fromEntries_eq
    using foldl_upd_distinct [OF assms(2,3),
        of "\<lambda>v. case getProp vars (key v) of Some x \<Rightarrow> x | None \<Rightarrow> default_value v" Map.empty]
    by (simp add: map_add_def)
qed

theorem buildContext_binds_declared_keys_witness:
  "RecipeSchema secretRecipe \<and> distinct (map key (variables secretRecipe)) \<and>
   buildContext secretRecipe ''proj'' [''PORT'' \<mapsto> ''8080''] ''DB_PASS'' = Some ''changeme'' \<and>
   buildContext secretRecipe ''proj'' [''PORT'' \<mapsto> ''8080''] ''PORT'' = Some ''8080''"
proof -
  let ?pass = "mkVariable ''DB_PASS'' ''changeme'' True (Some True)"
  let ?port = "mkVariable ''PORT'' ''80'' False None"
  have h1: "RecipeSchema secretRecipe"
    by (simp add: RecipeSchema_def RecipeVariableSchema_def recipeIdRegex_def variableKeyRegex_def
        secretRecipe_def mkRecipe_def mkVariable_def isUpper_def isLower_def isDigit_def)
  have h2: "distinct (map key (variables secretRecipe))"
    by (simp add: secretRecipe_def mkRecipe_def mkVariable_def)
  have m1: "?pass \<in> set (variables secretRecipe)" and m2: "?port \<in> set (variables secretRecipe)"
    by (simp_all add: secretRecipe_def mkRecipe_def)
  show ?thesis
    using h1 h2
      buildContext_binds_declared_keys [OF h1 h2 m1, of "''proj''" "[''PORT'' \<mapsto> ''8080'']"]
      buildContext_binds_declared_keys [OF h1 h2 m2, of "''proj''" "[''PORT'' \<mapsto> ''8080'']"]
    by (simp add: mkVariable_def)
qed

text \<open>
  The claim as the specification words it fails: an override that is present and empty
  is bound as it is, and the default \<^verbatim>\<open>latest\<close> is not used.
\<close>

theorem buildContext_empty_override_counterexample:
  "buildContext tagRecipe ''proj'' [''TAG'' \<mapsto> []] ''TAG'' = Some [] \<and>
   effective_spec (mkVariable ''TAG'' ''latest'' False None) [''TAG'' \<mapsto> []] = ''latest'' \<and>
   buildContext tagRecipe ''proj'' [''TAG'' \<mapsto> []] ''TAG'' \<noteq>
     Some (effective_spec (mkVariable ''TAG'' ''latest'' False None) [''TAG'' \<mapsto> []])"
  by (simp add: buildContext_def fromEntries_def effective_spec_def tagRecipe_def mkRecipe_def
      mkVariable_def getProp_def)

text \<open>
  Claim C3, as the code has it. For a recipe accepted by the schema, \<open>getMissingRequired\<close>
  returns, in declaration order, the keys of the required variables whose effective value
  (the override where one is present, the default otherwise) is the empty string. For the
  recipe with the one required variable \<^verbatim>\<open>DB_PASS\<close> with the empty default it returns
  nothing under the override \<^verbatim>\<open>{DB_PASS: "x"}\<close> and \<^verbatim>\<open>["DB_PASS"]\<close> under no override.
\<close>

theorem getMissingRequired_characterisation:
  assumes "RecipeSchema recipe"
  shows "getMissingRequired recipe vars =
           map key (filter (\<lambda>v. required v \<and> effectiveValue v vars = []) (variables recipe)) \<and>
         subseq (getMissingRequired recipe vars) (map key (variables recipe)) \<and>
         getMissingRequired dbPassRecipe [''DB_PASS'' \<mapsto> ''x''] = [] \<and>
         getMissingRequired dbPassRecipe Map.empty = [''DB_PASS'']"
proof -
  have "filter (\<lambda>v. required v \<and>
            (case getProp vars (key v) of Some x \<Rightarrow> x | None \<Rightarrow> default_value v) = []) (variables recipe) =
        filter (\<lambda>v. required v \<and> effectiveValue v vars = []) (variables recipe)"
  proof (rule filter_cong [OF refl])
    fix v assume "v \<in> set (variables recipe)"
    then have "getProp vars (key v) = vars (key v)"
      using RecipeSchema_keys [OF assms] getProp_variable_key by blast
    then show "(required v \<and>
            (case getProp vars (key v) of Some x \<Rightarrow> x | None \<Rightarrow> default_value v) = []) =
          (required v \<and> effectiveValue v vars = [])"
      by (simp add: effectiveValue_def)
  qed
  then have a: "getMissingRequired recipe vars =
     map key (filter (\<lambda>v. required v \<and> effectiveValue v vars = []) (variables recipe))"
    by (simp only: getMissingRequired_def)
  have b: "subseq (getMissingRequired recipe vars) (map key (variables recipe))"
    unfolding getMissingRequired_def by (intro subseq_map subseq_filter_left)
  have c: "getMissingRequired dbPassRecipe [''DB_PASS'' \<mapsto> ''x''] = []"
    by (simp add: getMissingRequired_def dbPassRecipe_def mkRecipe_def mkVariable_def getProp_def)
  have d: "getMissingRequired dbPassRecipe Map.empty = [''DB_PASS'']"
    by (simp add: getMissingRequired_def dbPassRecipe_def mkRecipe_def mkVariable_def getProp_def
        objectPrototype_def objectPrototypeTable_def)
  from a b c d show ?thesis by blast
qed

theorem getMissingRequired_characterisation_witness:
  "RecipeSchema secretRecipe \<and>
   getMissingRequired secretRecipe [''PORT'' \<mapsto> ''8080''] = [] \<and>
   getMissingRequired secretRecipe [''DB_PASS'' \<mapsto> []] = [''DB_PASS'']"
proof -
  have h: "RecipeSchema secretRecipe"
    by (simp add: RecipeSchema_def RecipeVariableSchema_def recipeIdRegex_def variableKeyRegex_def
        secretRecipe_def mkRecipe_def mkVariable_def isUpper_def isLower_def isDigit_def)
  have t1: "getMissingRequired secretRecipe [''PORT'' \<mapsto> ''8080''] =
      map key (filter (\<lambda>v. required v \<and> effectiveValue v [''PORT'' \<mapsto> ''8080''] = [])
        (variables secretRecipe))"
    using getMissingRequired_characterisation [OF h, of "[''PORT'' \<mapsto> ''8080'']"]
    by (rule conjunct1)
  have t2: "getMissingRequired secretRecipe [''DB_PASS'' \<mapsto> []] =
      map key (filter (\<lambda>v. required v \<and> effectiveValue v [''DB_PASS'' \<mapsto> []] = [])
        (variables secretRecipe))"
    using getMissingRequired_characterisation [OF h, of "[''DB_PASS'' \<mapsto> []]"]
    by (rule conjunct1)
  have e1: "map key (filter (\<lambda>v. required v \<and> effectiveValue v [''PORT'' \<mapsto> ''8080''] = [])
        (variables secretRecipe)) = []"
    by (simp add: secretRecipe_def mkRecipe_def mkVariable_def effectiveValue_def)
  have e2: "map key (filter (\<lambda>v. required v \<and> effectiveValue v [''DB_PASS'' \<mapsto> []] = [])
        (variables secretRecipe)) = [''DB_PASS'']"
    by (simp add: secretRecipe_def mkRecipe_def mkVariable_def effectiveValue_def)
  from h t1 t2 e1 e2 show ?thesis by simp
qed

text \<open>
  The claim as the specification words it fails: under an empty override the required
  variable is reported missing although its default \<^verbatim>\<open>changeme\<close> is not empty.
\<close>

theorem getMissingRequired_empty_override_counterexample:
  "getMissingRequired secretRecipe [''DB_PASS'' \<mapsto> []] = [''DB_PASS''] \<and>
   missingRequired_spec secretRecipe [''DB_PASS'' \<mapsto> []] = [] \<and>
   getMissingRequired secretRecipe [''DB_PASS'' \<mapsto> []] \<noteq>
   missingRequired_spec secretRecipe [''DB_PASS'' \<mapsto> []]"
  by (simp add: getMissingRequired_def missingRequired_spec_def secretRecipe_def mkRecipe_def
      mkVariable_def getProp_def)

text \<open>
  Claim C6, as the code has it. In a recipe accepted by the schema whose variable keys
  are unique, two override mappings that agree outside the keys of the secret variables
  give the same redacted mapping; it binds the key of every secret variable to the marker
  \<^verbatim>\<open>***\<close>, whether an override or the default would have supplied the value, and the
  key of every other variable to the override where one is present, also when it is the
  empty string, and to the declared default where none is.
\<close>

theorem redactVariables_hides_secrets:
  assumes "RecipeSchema recipe" and "distinct (map key (variables recipe))"
    and "\<forall>k. k \<notin> secretKeys recipe \<longrightarrow> vars1 k = vars2 k"
  shows "redactVariables recipe vars1 = redactVariables recipe vars2 \<and>
         (\<forall>v \<in> set (variables recipe).
            redactVariables recipe vars1 (key v) =
              Some (if secret v = Some True then ''***'' else effectiveValue v vars1))"
proof -
  let ?f = "\<lambda>vars v. if secret v = Some True then ''***''
                      else (case getProp vars (key v) of Some x \<Rightarrow> x | None \<Rightarrow> default_value v)"
  have own: "getProp vars (key v) = vars (key v)" if "v \<in> set (variables recipe)" for v vars
    using RecipeSchema_keys [OF assms(1) that] by (rule getProp_variable_key)
  have agree: "?f vars1 v = ?f vars2 v" if "v \<in> set (variables recipe)" for v
  proof (cases "secret v = Some True")
    case True
    then show ?thesis by simp
  next
    case False
    have "key v \<notin> secretKeys recipe"
    proof
      assume "key v \<in> secretKeys recipe"
      then obtain w where w: "w \<in> set (variables recipe)" "secret w = Some True" "key w = key v"
        by (auto simp: secretKeys_def)
      with assms(2) that have "w = v" by (meson distinct_map inj_onD)
      with w False show False by simp
    qed
    with assms(3) have "vars1 (key v) = vars2 (key v)" by simp
    then show ?thesis by (simp add: own [OF that])
  qed
  have "map (\<lambda>v. (key v, ?f vars1 v)) (variables recipe) =
        map (\<lambda>v. (key v, ?f vars2 v)) (variables recipe)"
    using agree by (intro map_cong) auto
  then have eq: "redactVariables recipe vars1 = redactVariables recipe vars2"
    unfolding redactVariables_eq foldl_upd_map_of
    by (rule arg_cong [where f = "\<lambda>es. Map.empty ++ map_of (rev es)"])
  have "redactVariables recipe vars1 (key v) =
          Some (if secret v = Some True then ''***'' else effectiveValue v vars1)"
    if "v \<in> set (variables recipe)" for v
    unfolding redactVariables_eq effectiveValue_def
    using foldl_upd_distinct [OF assms(2) that, of "?f vars1" Map.empty] own [OF that, of vars1]
    by simp
  with eq show ?thesis by blast
qed

theorem redactVariables_hides_secrets_witness:
  "RecipeSchema secretRecipe \<and> distinct (map key (variables secretRecipe)) \<and>
   redactVariables secretRecipe [''DB_PASS'' \<mapsto> ''s3cr3t'', ''PORT'' \<mapsto> ''8080''] =
   redactVariables secretRecipe [''PORT'' \<mapsto> ''8080''] \<and>
   redactVariables secretRecipe [''DB_PASS'' \<mapsto> ''s3cr3t'', ''PORT'' \<mapsto> ''8080''] ''DB_PASS'' = Some ''***'' \<and>
   redactVariables secretRecipe [''PORT'' \<mapsto> ''8080''] ''DB_PASS'' = Some ''***'' \<and>
   redactVariables secretRecipe [''DB_PASS'' \<mapsto> ''s3cr3t'', ''PORT'' \<mapsto> ''8080''] ''PORT'' = Some ''8080''"
proof -
  let ?v1 = "[''DB_PASS'' \<mapsto> ''s3cr3t'', ''PORT'' \<mapsto> ''8080'']"
  let ?v2 = "[''PORT'' \<mapsto> ''8080'']"
  let ?pass = "mkVariable ''DB_PASS'' ''changeme'' True (Some True)"
  let ?port = "mkVariable ''PORT'' ''80'' False None"
  have h1: "distinct (map key (variables secretRecipe))"
    by (simp add: secretRecipe_def mkRecipe_def mkVariable_def)
  have h0: "RecipeSchema secretRecipe"
    by (simp add: RecipeSchema_def RecipeVariableSchema_def recipeIdRegex_def variableKeyRegex_def
        secretRecipe_def mkRecipe_def mkVariable_def isUpper_def isLower_def isDigit_def)
  have h2: "\<forall>k. k \<notin> secretKeys secretRecipe \<longrightarrow> ?v1 k = ?v2 k"
    by (simp add: secretKeys_def secretRecipe_def mkRecipe_def mkVariable_def)
  note t = redactVariables_hides_secrets [OF h0 h1 h2]
  from t have a: "redactVariables secretRecipe ?v1 = redactVariables secretRecipe ?v2"
    by (rule conjunct1)
  from t have b: "\<forall>v \<in> set (variables secretRecipe).
      redactVariables secretRecipe ?v1 (key v) =
        Some (if secret v = Some True then ''***'' else effectiveValue v ?v1)"
    by (rule conjunct2)
  have m1: "?pass \<in> set (variables secretRecipe)" and m2: "?port \<in> set (variables secretRecipe)"
    by (simp_all add: secretRecipe_def mkRecipe_def)
  have k1: "key ?pass = ''DB_PASS''" "secret ?pass = Some True"
    and k2: "key ?port = ''PORT''" "secret ?port \<noteq> Some True" "effectiveValue ?port ?v1 = ''8080''"
    by (simp_all add: mkVariable_def effectiveValue_def)
  have c: "redactVariables secretRecipe ?v1 ''DB_PASS'' = Some ''***''"
    using bspec [OF b m1] unfolding k1 by simp
  have d: "redactVariables secretRecipe ?v1 ''PORT'' = Some ''8080''"
    using bspec [OF b m2] k2(2) unfolding k2(1) k2(3) by simp
  have e: "redactVariables secretRecipe ?v2 ''DB_PASS'' = Some ''***''"
    using c unfolding a .
  from h0 h1 a c e d show ?thesis by (intro conjI)
qed

text \<open>
  The claim as the specification words it fails in two ways. A recipe accepted by the
  schema may declare a key twice; when the later declaration is not secret, the loop
  overwrites the marker, so the override is stored in clear and two overrides that differ
  only in that value give different outputs. And for a variable that is not secret, an
  override that is present and empty is stored as it is, where the effective value in the
  words of the specification is the default \<^verbatim>\<open>80\<close>.
\<close>

theorem redactVariables_counterexample:
  "RecipeSchema dupRecipe \<and>
   redactVariables dupRecipe [''DB_PASS'' \<mapsto> ''s3cr3t''] ''DB_PASS'' = Some ''s3cr3t'' \<and>
   redactVariables dupRecipe [''DB_PASS'' \<mapsto> ''s3cr3t''] \<noteq>
     redactVariables dupRecipe [''DB_PASS'' \<mapsto> ''hunter2''] \<and>
   RecipeSchema secretRecipe \<and>
   redactVariables secretRecipe [''PORT'' \<mapsto> []] ''PORT'' = Some [] \<and>
   effective_spec (mkVariable ''PORT'' ''80'' False None) [''PORT'' \<mapsto> []] = ''80''"
proof -
  have s1: "RecipeSchema dupRecipe"
    by (simp add: RecipeSchema_def RecipeVariableSchema_def recipeIdRegex_def variableKeyRegex_def
        dupRecipe_def mkRecipe_def mkVariable_def isUpper_def isLower_def isDigit_def)
  have s2: "RecipeSchema secretRecipe"
    by (simp add: RecipeSchema_def RecipeVariableSchema_def recipeIdRegex_def variableKeyRegex_def
        secretRecipe_def mkRecipe_def mkVariable_def isUpper_def isLower_def isDigit_def)
  have x1: "redactVariables dupRecipe [''DB_PASS'' \<mapsto> ''s3cr3t''] ''DB_PASS'' = Some ''s3cr3t''"
    by (simp add: redactVariables_def dupRecipe_def mkRecipe_def mkVariable_def getProp_def)
  have x2: "redactVariables dupRecipe [''DB_PASS'' \<mapsto> ''hunter2''] ''DB_PASS'' = Some ''hunter2''"
    by (simp add: redactVariables_def dupRecipe_def mkRecipe_def mkVariable_def getProp_def)
  have ne: "redactVariables dupRecipe [''DB_PASS'' \<mapsto> ''s3cr3t''] \<noteq>
     redactVariables dupRecipe [''DB_PASS'' \<mapsto> ''hunter2'']"
  proof
    assume "redactVariables dupRecipe [''DB_PASS'' \<mapsto> ''s3cr3t''] =
     redactVariables dupRecipe [''DB_PASS'' \<mapsto> ''hunter2'']"
    then have "redactVariables dupRecipe [''DB_PASS'' \<mapsto> ''s3cr3t''] ''DB_PASS'' =
      redactVariables dupRecipe [''DB_PASS'' \<mapsto> ''hunter2''] ''DB_PASS''"
      by (rule arg_cong [where f = "\<lambda>m. m ''DB_PASS''"])
    then show False unfolding x1 x2 by simp
  qed
  have y1: "redactVariables secretRecipe [''PORT'' \<mapsto> []] ''PORT'' = Some []"
    by (simp add: redactVariables_def secretRecipe_def mkRecipe_def mkVariable_def getProp_def)
  have y2: "effective_spec (mkVariable ''PORT'' ''80'' False None) [''PORT'' \<mapsto> []] = ''80''"
    by (simp add: effective_spec_def mkVariable_def)
  from s1 x1 ne s2 y1 y2 show ?thesis by (intro conjI)
qed

text \<open>
  Claim C10. For a recipe accepted by \<open>RecipeSchema\<close>, the keys of the context are
  \<^verbatim>\<open>projectName\<close> and the declared variable keys, and nothing else; \<^verbatim>\<open>projectName\<close> is
  bound to the project name the caller gave, since no key matching
  \<^verbatim>\<open>/^[A-Z][A-Z0-9_]*$/\<close> equals it; and two override mappings that agree on the declared
  keys give the same run of \<open>generateProject\<close>: the same file-system calls with the same
  contents and the same result.
\<close>

theorem buildContext_keys:
  assumes "RecipeSchema recipe"
  shows "dom (buildContext recipe pn vars) = insert ''projectName'' (key ` set (variables recipe)) \<and>
         buildContext recipe pn vars ''projectName'' = Some pn \<and>
         ((\<forall>v \<in> set (variables recipe). vars (key v) = vars' (key v)) \<longrightarrow>
            generateProject rt recipe pn vars = generateProject rt recipe pn vars')"
proof -
  let ?val = "\<lambda>vars v. case getProp vars (key v) of Some x \<Rightarrow> x | None \<Rightarrow> default_value v"
  have d: "dom (buildContext recipe pn vars) = insert ''projectName'' (key ` set (variables recipe))"
    unfolding buildContext_def fromEntries_eq by (auto simp: foldl_upd_dom)
  have valid: "\<forall>k \<in> key ` set (variables recipe). variableKeyRegex k"
    using assms by (auto simp: RecipeSchema_def RecipeVariableSchema_def list_all_iff)
  have lower: "\<not> variableKeyRegex ''projectName''"
    by (simp add: variableKeyRegex_def isUpper_def)
  have "''projectName'' \<notin> key ` set (variables recipe)"
  proof
    assume "''projectName'' \<in> key ` set (variables recipe)"
    with valid have "variableKeyRegex ''projectName''" by (rule bspec)
    with lower show False ..
  qed
  then have "''projectName'' \<notin> dom (foldl (\<lambda>m v. m(key v \<mapsto> ?val vars v)) Map.empty (variables recipe))"
    unfolding foldl_upd_dom by simp
  then have p: "buildContext recipe pn vars ''projectName'' = Some pn"
    unfolding buildContext_def fromEntries_eq by (simp add: map_add_def domIff)
  have g: "generateProject rt recipe pn vars = generateProject rt recipe pn vars'"
    if "\<forall>v \<in> set (variables recipe). vars (key v) = vars' (key v)"
  proof -
    have "map (\<lambda>v. (key v, ?val vars v)) (variables recipe) =
          map (\<lambda>v. (key v, ?val vars' v)) (variables recipe)"
      using that by (intro map_cong) (auto simp: getProp_def)
    then have "buildContext recipe pn vars = buildContext recipe pn vars'"
      unfolding buildContext_def by (simp only:)
    then show ?thesis unfolding generateProject_def by (simp only:)
  qed
  from d p g show ?thesis by blast
qed

theorem buildContext_keys_witness:
  "RecipeSchema tagRecipe \<and>
   dom (buildContext tagRecipe ''proj'' [''TAG'' \<mapsto> ''1.0'', ''UNDECLARED'' \<mapsto> ''a'']) =
     {''projectName'', ''TAG''} \<and>
   buildContext tagRecipe ''proj'' [''TAG'' \<mapsto> ''1.0'', ''UNDECLARED'' \<mapsto> ''a''] ''projectName'' =
     Some ''proj'' \<and>
   generateProject demoRuntime tagRecipe ''proj'' [''TAG'' \<mapsto> ''1.0'', ''UNDECLARED'' \<mapsto> ''a''] =
   generateProject demoRuntime tagRecipe ''proj'' [''TAG'' \<mapsto> ''1.0'']"
proof -
  have h: "RecipeSchema tagRecipe"
    by (simp add: RecipeSchema_def RecipeVariableSchema_def recipeIdRegex_def variableKeyRegex_def
        tagRecipe_def mkRecipe_def mkVariable_def isUpper_def isLower_def isDigit_def)
  have same: "\<forall>v \<in> set (variables tagRecipe).
      [''TAG'' \<mapsto> ''1.0'', ''UNDECLARED'' \<mapsto> ''a''] (key v) = [''TAG'' \<mapsto> ''1.0''] (key v)"
    by (simp add: tagRecipe_def mkRecipe_def mkVariable_def)
  show ?thesis
    using h same
      buildContext_keys [OF h, of "''proj''" "[''TAG'' \<mapsto> ''1.0'', ''UNDECLARED'' \<mapsto> ''a'']"
        "[''TAG'' \<mapsto> ''1.0'']" demoRuntime]
    by (simp add: tagRecipe_def mkRecipe_def mkVariable_def)
qed

section \<open>Properties of the generation index\<close>

text \<open>
  Claim C7. After \<open>appendGeneratedRecord\<close> the index holds the new record first, then the
  records it held before, in their order and unchanged, cut so that the index has at
  most 100 entries.
\<close>

theorem appendGeneratedRecord_newest_first:
  "readGeneratedIndex (appendGeneratedRecord record f) = record # take 99 (readGeneratedIndex f) \<and>
   length (readGeneratedIndex (appendGeneratedRecord record f)) \<le> 100"
  by (simp add: appendGeneratedRecord_def readGeneratedIndex_def)

section \<open>Properties of the generator\<close>

lemma splitOn_not_Nil: "splitOn c s \<noteq> []"
  by (induction s) (auto split: list.splits)

lemma splitOn_append: "splitOn c (a @ c # b) = splitOn c a @ splitOn c b"
proof (induction a)
  case Nil
  then show ?case by simp
next
  case (Cons x a)
  then show ?case
    using splitOn_not_Nil [of c a] by (cases "splitOn c a") (auto split: list.splits)
qed

lemma splitOn_no_sep: "c \<notin> set s \<Longrightarrow> splitOn c s = [s]"
  by (induction s) auto

lemma joinWith_splitOn: "joinWith [c] (splitOn c s) = s"
proof (induction s)
  case Nil
  then show ?case by simp
next
  case (Cons x s)
  show ?case
  proof (cases "x = c")
    case True
    then show ?thesis
      using Cons splitOn_not_Nil [of c s] by (cases "splitOn c s") auto
  next
    case False
    obtain seg segs where ss: "splitOn c s = seg # segs"
      using splitOn_not_Nil [of c s] by (cases "splitOn c s") auto
    then show ?thesis using Cons False by (cases segs) auto
  qed
qed

lemma joinWith_snoc: "xs \<noteq> [] \<Longrightarrow> joinWith sep (xs @ [s]) = joinWith sep xs @ sep @ s"
  by (induction sep xs rule: joinWith.induct) auto

lemma foldl_plain:
  "list_all plainSegment xs \<Longrightarrow> foldl (normalizeStep a) acc xs = acc @ xs"
  by (induction xs arbitrary: acc) (auto simp: normalizeStep_def plainSegment_def)

lemma pathJoin_plain:
  assumes "normalAbsolute g" "plainSegment s"
  shows "pathJoin [g, s] = g @ ''/'' @ s" and "normalAbsolute (g @ ''/'' @ s)"
proof -
  from assms(1) obtain r where g: "g = CHR ''/'' # r"
    and segs: "list_all plainSegment (splitOn CHR ''/'' r)"
    by (auto simp: normalAbsolute_def split: list.splits)
  let ?segs = "splitOn CHR ''/'' r"
  have s: "s \<noteq> []" "CHR ''/'' \<notin> set s" using assms(2) by (auto simp: plainSegment_def)
  have sp: "splitOn CHR ''/'' (r @ CHR ''/'' # s) = ?segs @ [s]"
    by (simp add: splitOn_append splitOn_no_sep s)
  have all: "list_all plainSegment (?segs @ [s])" using segs assms(2) by simp
  have "foldl (normalizeStep False) [] (splitOn CHR ''/'' (g @ ''/'' @ s)) = ?segs @ [s]"
    using foldl_plain [OF all, of False "[]"] by (simp add: g sp normalizeStep_def)
  then have n: "normalizeString (g @ ''/'' @ s) False = r @ ''/'' @ s"
    unfolding normalizeString_def
    using joinWith_snoc [OF splitOn_not_Nil, of "''/''" "CHR ''/''" r s]
          joinWith_splitOn [of "CHR ''/''" r] by simp
  have l: "last (g @ ''/'' @ s) \<noteq> CHR ''/''"
  proof -
    have "last (g @ ''/'' @ s) = last s" using s(1) by simp
    moreover have "last s \<in> set s" using s(1) by (rule last_in_set)
    ultimately show ?thesis using s(2) by metis
  qed
  have "pathNormalize (g @ ''/'' @ s) = g @ ''/'' @ s"
    using n l by (simp add: pathNormalize_def g Let_def)
  then show "pathJoin [g, s] = g @ ''/'' @ s"
    using s by (simp add: pathJoin_def g)
  show "normalAbsolute (g @ ''/'' @ s)"
    using all by (simp add: normalAbsolute_def g sp)
qed

lemma projectName_plain: "projectNameRegex pn \<Longrightarrow> plainSegment pn"
  by (cases pn)
     (auto simp: projectNameRegex_def plainSegment_def isLower_def isDigit_def list_all_iff)

lemma performAll_accepting:
  "\<forall>tr op. fs_accepts rt tr op \<Longrightarrow> performAll rt ops tr = (tr @ ops, None)"
  by (induction ops arbitrary: tr) auto

lemma writeFiles_all_pass:
  assumes "\<forall>tr op. fs_accepts rt tr op"
    and "\<forall>f \<in> set fs. \<not> isl (fileTarget rt pdir rel ctx f)"
  shows "writeFiles rt pdir rel ctx fs tr =
           (tr @ concat (map (\<lambda>f. targetCalls (fileTarget rt pdir rel ctx f)) fs), None)"
  using assms(2)
proof (induction fs arbitrary: tr)
  case Nil
  then show ?case by simp
next
  case (Cons f fs)
  then obtain tp where tp: "safeJoin (cwd rt) pdir (rel (renderTemplate (path f) ctx)) = Inr tp"
    by (auto simp: fileTarget_def split: sum.splits)
  show ?case
    using Cons tp by (simp add: assms(1) [rule_format] fileTarget_def targetCalls_def)
qed

lemma writeFiles_fails_at:
  assumes "\<forall>tr op. fs_accepts rt tr op"
    and "i < length fs"
    and "fileTarget rt pdir rel ctx (fs ! i) = Inl e"
    and "\<forall>j<i. \<not> isl (fileTarget rt pdir rel ctx (fs ! j))"
  shows "writeFiles rt pdir rel ctx fs tr =
           (tr @ concat (map (\<lambda>f. targetCalls (fileTarget rt pdir rel ctx f)) (take i fs)), Some e)"
  using assms(2-4)
proof (induction fs arbitrary: tr i)
  case Nil
  then show ?case by simp
next
  case (Cons f fs)
  show ?case
  proof (cases i)
    case 0
    with Cons.prems have "safeJoin (cwd rt) pdir (rel (renderTemplate (path f) ctx)) = Inl e"
      by (auto simp: fileTarget_def split: sum.splits)
    with 0 show ?thesis by simp
  next
    case (Suc i')
    from Cons.prems(3) Suc have "\<not> isl (fileTarget rt pdir rel ctx f)" by auto
    then obtain tp where tp: "safeJoin (cwd rt) pdir (rel (renderTemplate (path f) ctx)) = Inr tp"
      by (auto simp: fileTarget_def split: sum.splits)
    have a: "i' < length fs" using Cons.prems(1) Suc by simp
    have b: "fileTarget rt pdir rel ctx (fs ! i') = Inl e" using Cons.prems(2) Suc by simp
    have c: "\<forall>j<i'. \<not> isl (fileTarget rt pdir rel ctx (fs ! j))"
      using Cons.prems(3) Suc by auto
    show ?thesis
      using Cons.IH [OF a b c] tp Suc
      by (simp add: assms(1) [rule_format] fileTarget_def targetCalls_def)
  qed
qed

lemma filter_targetCalls:
  "filter isWriteFile (concat (map targetCalls ts)) = fileWrites ts"
  by (induction ts) (auto simp: targetCalls_def fileWrites_def isWriteFile_def split: sum.splits)

lemma length_fileWrites: "\<forall>t \<in> set ts. \<not> isl t \<Longrightarrow> length (fileWrites ts) = length ts"
  by (induction ts) (auto simp: fileWrites_def split: sum.splits)

lemma fileWrites_append: "fileWrites (xs @ ys) = fileWrites xs @ fileWrites ys"
  by (simp add: fileWrites_def)

lemma writeSeedFiles_all_pass:
  assumes "\<forall>tr op. fs_accepts rt tr op"
    and "\<forall>f \<in> set (seedList recipe).
           \<not> isl (fileTarget rt pdir (\<lambda>renderedPath. pathJoin [''seed'', renderedPath]) ctx f)"
  shows "\<exists>calls. writeSeedFiles rt pdir ctx (seedFiles recipe) tr = (tr @ calls, None) \<and>
           filter isWriteFile calls =
             fileWrites (map (fileTarget rt pdir (\<lambda>renderedPath. pathJoin [''seed'', renderedPath]) ctx)
                          (seedList recipe))"
proof (cases "seedList recipe = []")
  case True
  then show ?thesis
    by (auto simp: writeSeedFiles_def seedList_def fileWrites_def split: option.splits)
next
  case False
  then obtain fs where fs: "seedFiles recipe = Some fs" "fs \<noteq> []" "seedList recipe = fs"
    by (auto simp: seedList_def split: option.splits)
  let ?t = "fileTarget rt pdir (\<lambda>renderedPath. pathJoin [''seed'', renderedPath]) ctx"
  have "writeSeedFiles rt pdir ctx (seedFiles recipe) tr =
          (tr @ Mkdir (pathJoin [pdir, ''seed'']) # concat (map (\<lambda>f. targetCalls (?t f)) fs), None)"
    using writeFiles_all_pass [OF assms(1), of fs pdir _ ctx] assms(2) fs
    by (simp add: writeSeedFiles_def assms(1) [rule_format])
  moreover have "filter isWriteFile (Mkdir (pathJoin [pdir, ''seed'']) # concat (map (\<lambda>f. targetCalls (?t f)) fs))
                 = fileWrites (map ?t fs)"
    using filter_targetCalls [of "map ?t fs"] by (simp add: isWriteFile_def comp_def)
  ultimately show ?thesis using fs by auto
qed

lemma writeSeedFiles_fails_at:
  assumes "\<forall>tr op. fs_accepts rt tr op"
    and "i < length (seedList recipe)"
    and "fileTarget rt pdir (\<lambda>renderedPath. pathJoin [''seed'', renderedPath]) ctx (seedList recipe ! i) = Inl e"
    and "\<forall>j<i. \<not> isl (fileTarget rt pdir (\<lambda>renderedPath. pathJoin [''seed'', renderedPath]) ctx (seedList recipe ! j))"
  shows "\<exists>calls. writeSeedFiles rt pdir ctx (seedFiles recipe) tr = (tr @ calls, Some e) \<and>
           filter isWriteFile calls =
             fileWrites (take i (map (fileTarget rt pdir (\<lambda>renderedPath. pathJoin [''seed'', renderedPath]) ctx)
                          (seedList recipe)))"
proof -
  from assms(2) have "seedList recipe \<noteq> []" by auto
  then obtain fs where fs: "seedFiles recipe = Some fs" "fs \<noteq> []" "seedList recipe = fs"
    by (auto simp: seedList_def split: option.splits)
  let ?t = "fileTarget rt pdir (\<lambda>renderedPath. pathJoin [''seed'', renderedPath]) ctx"
  have "writeSeedFiles rt pdir ctx (seedFiles recipe) tr =
          (tr @ Mkdir (pathJoin [pdir, ''seed'']) # concat (map (\<lambda>f. targetCalls (?t f)) (take i fs)), Some e)"
    using writeFiles_fails_at [OF assms(1), of i fs pdir _ ctx e] assms(2-4) fs
    by (simp add: writeSeedFiles_def assms(1) [rule_format])
  moreover have "filter isWriteFile (Mkdir (pathJoin [pdir, ''seed'']) # concat (map (\<lambda>f. targetCalls (?t f)) (take i fs)))
                 = fileWrites (take i (map ?t fs))"
    using filter_targetCalls [of "map ?t (take i fs)"] by (simp add: isWriteFile_def comp_def take_map)
  ultimately show ?thesis using fs by auto
qed

lemma writeExtraFiles_all_pass:
  assumes "\<forall>tr op. fs_accepts rt tr op"
    and "\<forall>f \<in> set (extraList recipe). \<not> isl (fileTarget rt pdir (\<lambda>renderedPath. renderedPath) ctx f)"
  shows "\<exists>calls. writeExtraFiles rt pdir ctx (extraFiles recipe) tr = (tr @ calls, None) \<and>
           filter isWriteFile calls =
             fileWrites (map (fileTarget rt pdir (\<lambda>renderedPath. renderedPath) ctx) (extraList recipe))"
proof (cases "extraList recipe = []")
  case True
  then show ?thesis
    by (auto simp: writeExtraFiles_def extraList_def fileWrites_def split: option.splits)
next
  case False
  then obtain fs where fs: "extraFiles recipe = Some fs" "fs \<noteq> []" "extraList recipe = fs"
    by (auto simp: extraList_def split: option.splits)
  let ?t = "fileTarget rt pdir (\<lambda>renderedPath. renderedPath) ctx"
  have "writeExtraFiles rt pdir ctx (extraFiles recipe) tr =
          (tr @ concat (map (\<lambda>f. targetCalls (?t f)) fs), None)"
    using writeFiles_all_pass [OF assms(1), of fs pdir _ ctx] assms(2) fs
    by (simp add: writeExtraFiles_def)
  moreover have "filter isWriteFile (concat (map (\<lambda>f. targetCalls (?t f)) fs)) = fileWrites (map ?t fs)"
    using filter_targetCalls [of "map ?t fs"] by (simp add: comp_def)
  ultimately show ?thesis using fs by auto
qed

lemma writeExtraFiles_fails_at:
  assumes "\<forall>tr op. fs_accepts rt tr op"
    and "i < length (extraList recipe)"
    and "fileTarget rt pdir (\<lambda>renderedPath. renderedPath) ctx (extraList recipe ! i) = Inl e"
    and "\<forall>j<i. \<not> isl (fileTarget rt pdir (\<lambda>renderedPath. renderedPath) ctx (extraList recipe ! j))"
  shows "\<exists>calls. writeExtraFiles rt pdir ctx (extraFiles recipe) tr = (tr @ calls, Some e) \<and>
           filter isWriteFile calls =
             fileWrites (take i (map (fileTarget rt pdir (\<lambda>renderedPath. renderedPath) ctx) (extraList recipe)))"
proof -
  from assms(2) have "extraList recipe \<noteq> []" by auto
  then obtain fs where fs: "extraFiles recipe = Some fs" "fs \<noteq> []" "extraList recipe = fs"
    by (auto simp: extraList_def split: option.splits)
  let ?t = "fileTarget rt pdir (\<lambda>renderedPath. renderedPath) ctx"
  have "writeExtraFiles rt pdir ctx (extraFiles recipe) tr =
          (tr @ concat (map (\<lambda>f. targetCalls (?t f)) (take i fs)), Some e)"
    using writeFiles_fails_at [OF assms(1), of i fs pdir _ ctx e] assms(2-4) fs
    by (simp add: writeExtraFiles_def)
  moreover have "filter isWriteFile (concat (map (\<lambda>f. targetCalls (?t f)) (take i fs)))
                 = fileWrites (take i (map ?t fs))"
    using filter_targetCalls [of "map ?t (take i fs)"] by (simp add: comp_def take_map)
  ultimately show ?thesis using fs by auto
qed

lemma declaredTargets_eq:
  "declaredTargets rt recipe pn vars =
     map (fileTarget rt (projectDirOf rt pn) (\<lambda>renderedPath. pathJoin [''seed'', renderedPath])
            (buildContext recipe pn vars)) (seedList recipe) @
     map (fileTarget rt (projectDirOf rt pn) (\<lambda>renderedPath. renderedPath)
            (buildContext recipe pn vars)) (extraList recipe)"
  by (simp add: declaredTargets_def)

lemma generateProject_accepting:
  assumes "\<forall>tr op. fs_accepts rt tr op"
  shows "generateProject rt recipe pn vars =
     (case writeSeedFiles rt (projectDirOf rt pn) (buildContext recipe pn vars) (seedFiles recipe)
             (Mkdir (projectDirOf rt pn) # mainWrites rt recipe pn vars) of
        (tr2, Some err) \<Rightarrow> (tr2, Inl err)
      | (tr2, None) \<Rightarrow>
          (case writeExtraFiles rt (projectDirOf rt pn) (buildContext recipe pn vars) (extraFiles recipe) tr2 of
             (tr3, Some err) \<Rightarrow> (tr3, Inl err)
           | (tr3, None) \<Rightarrow>
               (tr3, Inr \<lparr>projectDir = projectDirOf rt pn,
                  files = \<lparr>compose = renderTemplate (composeTemplate recipe) (buildContext recipe pn vars),
                           env = renderTemplate (envTemplate recipe) (buildContext recipe pn vars),
                           readme = renderTemplate (readmeTemplate recipe) (buildContext recipe pn vars)\<rparr>\<rparr>)))"
  unfolding generateProject_def Let_def projectDirOf_def mainWrites_def
  by (simp add: assms [rule_format])

lemma isWriteFile_simps: "isWriteFile (Mkdir d) = False" "isWriteFile (WriteFile p c) = True"
  by (simp_all add: isWriteFile_def)

lemma filter_mainWrites:
  "filter isWriteFile (mainWrites rt recipe pn vars) = mainWrites rt recipe pn vars"
  by (simp add: mainWrites_def isWriteFile_def)

lemma generateProject_first_escape:
  assumes "\<forall>tr op. fs_accepts rt tr op"
    and "i < length (declaredTargets rt recipe pn vars)"
    and "declaredTargets rt recipe pn vars ! i = Inl e"
    and "\<forall>j<i. \<not> isl (declaredTargets rt recipe pn vars ! j)"
  shows "snd (generateProject rt recipe pn vars) = Inl e \<and>
         filter isWriteFile (fst (generateProject rt recipe pn vars)) =
           mainWrites rt recipe pn vars @ fileWrites (take i (declaredTargets rt recipe pn vars)) \<and>
         length (fileWrites (take i (declaredTargets rt recipe pn vars))) = i"
proof -
  let ?pdir = "projectDirOf rt pn"
  let ?ctx = "buildContext recipe pn vars"
  let ?tS = "fileTarget rt ?pdir (\<lambda>renderedPath. pathJoin [''seed'', renderedPath]) ?ctx"
  let ?tX = "fileTarget rt ?pdir (\<lambda>renderedPath. renderedPath) ?ctx"
  let ?S = "seedList recipe"
  let ?X = "extraList recipe"
  let ?ts = "declaredTargets rt recipe pn vars"
  let ?tr1 = "Mkdir ?pdir # mainWrites rt recipe pn vars"
  have ts: "?ts = map ?tS ?S @ map ?tX ?X" by (rule declaredTargets_eq)
  have len: "length (fileWrites (take i ?ts)) = i"
  proof -
    have "\<forall>t \<in> set (take i ?ts). \<not> isl t"
      using assms(2,4) by (auto simp: in_set_conv_nth)
    then have "length (fileWrites (take i ?ts)) = length (take i ?ts)"
      by (rule length_fileWrites)
    then show ?thesis using assms(2) by simp
  qed
  have "snd (generateProject rt recipe pn vars) = Inl e \<and>
        filter isWriteFile (fst (generateProject rt recipe pn vars)) =
          mainWrites rt recipe pn vars @ fileWrites (take i ?ts)"
  proof (cases "i < length ?S")
    case True
    have f: "?tS (?S ! i) = Inl e" using assms(3) True by (simp add: ts nth_append)
    have b: "\<forall>j<i. \<not> isl (?tS (?S ! j))"
      using assms(4) True by (auto simp: ts nth_append)
    obtain calls where c: "writeSeedFiles rt ?pdir ?ctx (seedFiles recipe) ?tr1 = (?tr1 @ calls, Some e)"
        "filter isWriteFile calls = fileWrites (take i (map ?tS ?S))"
      using writeSeedFiles_fails_at [OF assms(1) True f b, of ?tr1] by blast
    have "take i ?ts = take i (map ?tS ?S)" using True by (simp add: ts)
    then show ?thesis
      using c
      by (simp add: generateProject_accepting [OF assms(1)] isWriteFile_simps filter_mainWrites)
  next
    case False
    let ?i = "i - length ?S"
    have i': "?i < length ?X" using assms(2) False by (simp add: ts)
    have f: "?tX (?X ! ?i) = Inl e" using assms(3) False i' by (simp add: ts nth_append)
    have bS: "\<forall>f \<in> set ?S. \<not> isl (?tS f)"
    proof
      fix f assume "f \<in> set ?S"
      then obtain j where j: "j < length ?S" "?S ! j = f" by (auto simp: in_set_conv_nth)
      with False have "j < i" by simp
      with assms(4) have "\<not> isl (?ts ! j)" by simp
      with j show "\<not> isl (?tS f)" by (simp add: ts nth_append)
    qed
    have bX: "\<forall>j<?i. \<not> isl (?tX (?X ! j))"
    proof (intro allI impI)
      fix j assume "j < ?i"
      then have "length ?S + j < i" by simp
      with assms(4) have "\<not> isl (?ts ! (length ?S + j))" by simp
      then show "\<not> isl (?tX (?X ! j))" using \<open>j < ?i\<close> i' by (simp add: ts nth_append)
    qed
    obtain calls1 where c1: "writeSeedFiles rt ?pdir ?ctx (seedFiles recipe) ?tr1 = (?tr1 @ calls1, None)"
        "filter isWriteFile calls1 = fileWrites (map ?tS ?S)"
      using writeSeedFiles_all_pass [OF assms(1) bS, of ?tr1] by blast
    obtain calls2 where c2:
        "writeExtraFiles rt ?pdir ?ctx (extraFiles recipe) (?tr1 @ calls1) = ((?tr1 @ calls1) @ calls2, Some e)"
        "filter isWriteFile calls2 = fileWrites (take ?i (map ?tX ?X))"
      using writeExtraFiles_fails_at [OF assms(1) i' f bX, of "?tr1 @ calls1"] by blast
    have "take i ?ts = map ?tS ?S @ take ?i (map ?tX ?X)" using False by (simp add: ts)
    then show ?thesis
      using c1 c2
      by (simp add: generateProject_accepting [OF assms(1)] fileWrites_append isWriteFile_simps
          filter_mainWrites)
  qed
  with len show ?thesis by blast
qed

lemma generateProject_returns_when_all_pass:
  assumes "\<forall>tr op. fs_accepts rt tr op"
    and "\<forall>t \<in> set (declaredTargets rt recipe pn vars). \<not> isl t"
  shows "\<exists>tr. generateProject rt recipe pn vars =
           (tr, Inr \<lparr>projectDir = projectDirOf rt pn,
                  files = \<lparr>compose = renderTemplate (composeTemplate recipe) (buildContext recipe pn vars),
                           env = renderTemplate (envTemplate recipe) (buildContext recipe pn vars),
                           readme = renderTemplate (readmeTemplate recipe) (buildContext recipe pn vars)\<rparr>\<rparr>)"
proof -
  let ?pdir = "projectDirOf rt pn"
  let ?ctx = "buildContext recipe pn vars"
  let ?tr1 = "Mkdir ?pdir # mainWrites rt recipe pn vars"
  have bS: "\<forall>f \<in> set (seedList recipe).
      \<not> isl (fileTarget rt ?pdir (\<lambda>renderedPath. pathJoin [''seed'', renderedPath]) ?ctx f)"
    using assms(2) by (auto simp: declaredTargets_eq)
  have bX: "\<forall>f \<in> set (extraList recipe).
      \<not> isl (fileTarget rt ?pdir (\<lambda>renderedPath. renderedPath) ?ctx f)"
    using assms(2) by (auto simp: declaredTargets_eq)
  obtain calls1 where c1: "writeSeedFiles rt ?pdir ?ctx (seedFiles recipe) ?tr1 = (?tr1 @ calls1, None)"
    using writeSeedFiles_all_pass [OF assms(1) bS, of ?tr1] by blast
  obtain calls2 where c2:
    "writeExtraFiles rt ?pdir ?ctx (extraFiles recipe) (?tr1 @ calls1) = ((?tr1 @ calls1) @ calls2, None)"
    using writeExtraFiles_all_pass [OF assms(1) bX, of "?tr1 @ calls1"] by blast
  show ?thesis using c1 c2 by (simp add: generateProject_accepting [OF assms(1)])
qed

lemma generateProject_all_pass_writes:
  assumes "\<forall>tr op. fs_accepts rt tr op"
    and "\<forall>t \<in> set (declaredTargets rt recipe pn vars). \<not> isl t"
  shows "filter isWriteFile (fst (generateProject rt recipe pn vars)) =
           mainWrites rt recipe pn vars @ fileWrites (declaredTargets rt recipe pn vars)"
proof -
  let ?pdir = "projectDirOf rt pn"
  let ?ctx = "buildContext recipe pn vars"
  let ?tS = "fileTarget rt ?pdir (\<lambda>renderedPath. pathJoin [''seed'', renderedPath]) ?ctx"
  let ?tX = "fileTarget rt ?pdir (\<lambda>renderedPath. renderedPath) ?ctx"
  let ?tr1 = "Mkdir ?pdir # mainWrites rt recipe pn vars"
  have bS: "\<forall>f \<in> set (seedList recipe). \<not> isl (?tS f)"
    using assms(2) by (auto simp: declaredTargets_eq)
  have bX: "\<forall>f \<in> set (extraList recipe). \<not> isl (?tX f)"
    using assms(2) by (auto simp: declaredTargets_eq)
  obtain calls1 where c1: "writeSeedFiles rt ?pdir ?ctx (seedFiles recipe) ?tr1 = (?tr1 @ calls1, None)"
      "filter isWriteFile calls1 = fileWrites (map ?tS (seedList recipe))"
    using writeSeedFiles_all_pass [OF assms(1) bS, of ?tr1] by blast
  obtain calls2 where c2:
      "writeExtraFiles rt ?pdir ?ctx (extraFiles recipe) (?tr1 @ calls1) = ((?tr1 @ calls1) @ calls2, None)"
      "filter isWriteFile calls2 = fileWrites (map ?tX (extraList recipe))"
    using writeExtraFiles_all_pass [OF assms(1) bX, of "?tr1 @ calls1"] by blast
  show ?thesis
    using c1 c2
    by (simp add: generateProject_accepting [OF assms(1)] declaredTargets_eq fileWrites_append
        isWriteFile_simps filter_mainWrites)
qed

text \<open>
  Claim C9. The seed files and then the extra files are handled one after the other, in
  declaration order, on a file system that accepts every call. When the sandbox rejects
  none of them, the call returns its result and its writes are the three main files
  followed by one write for every seed and extra file, each to its target path with its
  rendered content, in declaration order. When the sandbox rejects the file at index \<open>i\<close>
  of that sequence and accepted all files before it, the call fails with that error; its
  writes are the three main files followed by exactly one write for each of the \<open>i\<close>
  files before the rejected one, in order, and none for the rejected file or any file
  after it.
\<close>

theorem generateProject_writes_in_declared_order:
  assumes "\<forall>tr op. fs_accepts rt tr op"
  shows "((\<forall>t \<in> set (declaredTargets rt recipe pn vars). \<not> isl t) \<longrightarrow>
            snd (generateProject rt recipe pn vars) =
              Inr \<lparr>projectDir = projectDirOf rt pn,
                   files = \<lparr>compose = renderTemplate (composeTemplate recipe) (buildContext recipe pn vars),
                            env = renderTemplate (envTemplate recipe) (buildContext recipe pn vars),
                            readme = renderTemplate (readmeTemplate recipe) (buildContext recipe pn vars)\<rparr>\<rparr> \<and>
            filter isWriteFile (fst (generateProject rt recipe pn vars)) =
              mainWrites rt recipe pn vars @ fileWrites (declaredTargets rt recipe pn vars) \<and>
            length (fileWrites (declaredTargets rt recipe pn vars)) =
              length (declaredTargets rt recipe pn vars)) \<and>
         (i < length (declaredTargets rt recipe pn vars) \<and>
          declaredTargets rt recipe pn vars ! i = Inl e \<and>
          (\<forall>j<i. \<not> isl (declaredTargets rt recipe pn vars ! j)) \<longrightarrow>
            snd (generateProject rt recipe pn vars) = Inl e \<and>
            filter isWriteFile (fst (generateProject rt recipe pn vars)) =
              mainWrites rt recipe pn vars @ fileWrites (take i (declaredTargets rt recipe pn vars)) \<and>
            length (fileWrites (take i (declaredTargets rt recipe pn vars))) = i)"
proof (intro conjI impI)
  assume ok: "\<forall>t \<in> set (declaredTargets rt recipe pn vars). \<not> isl t"
  from generateProject_returns_when_all_pass [OF assms ok]
  show "snd (generateProject rt recipe pn vars) =
              Inr \<lparr>projectDir = projectDirOf rt pn,
                   files = \<lparr>compose = renderTemplate (composeTemplate recipe) (buildContext recipe pn vars),
                            env = renderTemplate (envTemplate recipe) (buildContext recipe pn vars),
                            readme = renderTemplate (readmeTemplate recipe) (buildContext recipe pn vars)\<rparr>\<rparr>"
    by auto
  show "filter isWriteFile (fst (generateProject rt recipe pn vars)) =
              mainWrites rt recipe pn vars @ fileWrites (declaredTargets rt recipe pn vars)"
    using assms ok by (rule generateProject_all_pass_writes)
  show "length (fileWrites (declaredTargets rt recipe pn vars)) =
              length (declaredTargets rt recipe pn vars)"
    using ok by (rule length_fileWrites)
next
  assume h: "i < length (declaredTargets rt recipe pn vars) \<and>
          declaredTargets rt recipe pn vars ! i = Inl e \<and>
          (\<forall>j<i. \<not> isl (declaredTargets rt recipe pn vars ! j))"
  then have h1: "i < length (declaredTargets rt recipe pn vars)"
    and h2: "declaredTargets rt recipe pn vars ! i = Inl e"
    and h3: "\<forall>j<i. \<not> isl (declaredTargets rt recipe pn vars ! j)"
    by blast+
  note t = generateProject_first_escape [OF assms h1 h2 h3]
  from t show "snd (generateProject rt recipe pn vars) = Inl e" by (rule conjunct1)
  from t show "filter isWriteFile (fst (generateProject rt recipe pn vars)) =
              mainWrites rt recipe pn vars @ fileWrites (take i (declaredTargets rt recipe pn vars))"
    by (rule conjunct1 [OF conjunct2])
  from t show "length (fileWrites (take i (declaredTargets rt recipe pn vars))) = i"
    by (rule conjunct2 [OF conjunct2])
qed

lemma performAll_extends: "\<exists>calls. fst (performAll rt ops tr) = tr @ calls"
proof (induction ops arbitrary: tr)
  case Nil
  then show ?case by simp
next
  case (Cons op ops)
  show ?case
  proof (cases "fs_accepts rt tr op")
    case True
    from Cons [of "tr @ [op]"] obtain calls where "fst (performAll rt ops (tr @ [op])) = (tr @ [op]) @ calls"
      by blast
    with True show ?thesis by simp
  next
    case False
    then show ?thesis by simp
  qed
qed

lemma writeFiles_extends: "\<exists>calls. fst (writeFiles rt pdir rel ctx fs tr) = tr @ calls"
proof (induction fs arbitrary: tr)
  case Nil
  then show ?case by simp
next
  case (Cons f fs)
  show ?case
  proof (cases "safeJoin (cwd rt) pdir (rel (renderTemplate (path f) ctx))")
    case (Inl e)
    then show ?thesis by simp
  next
    case (Inr tp)
    let ?ops = "[Mkdir (pathDirname tp), WriteFile tp (renderTemplate (content f) ctx)]"
    obtain tr' r where p: "performAll rt ?ops tr = (tr', r)" by (cases "performAll rt ?ops tr")
    obtain c1 where c1: "tr' = tr @ c1" using performAll_extends [of rt ?ops tr] p by auto
    show ?thesis
    proof (cases r)
      case None
      obtain c2 where "fst (writeFiles rt pdir rel ctx fs tr') = tr' @ c2" using Cons by blast
      then show ?thesis using Inr p None c1 by (simp del: performAll.simps)
    next
      case (Some e)
      then show ?thesis using Inr p c1 by (simp del: performAll.simps)
    qed
  qed
qed

lemma writeSeedFiles_extends: "\<exists>calls. fst (writeSeedFiles rt pdir ctx seeds tr) = tr @ calls"
proof (cases "\<exists>fs. seeds = Some fs \<and> fs \<noteq> []")
  case False
  then show ?thesis by (auto simp: writeSeedFiles_def split: option.splits)
next
  case True
  then obtain fs where fs: "seeds = Some fs" "fs \<noteq> []" by blast
  let ?ops = "[Mkdir (pathJoin [pdir, ''seed''])]"
  obtain tr' r where p: "performAll rt ?ops tr = (tr', r)" by (cases "performAll rt ?ops tr")
  obtain c1 where c1: "tr' = tr @ c1" using performAll_extends [of rt ?ops tr] p by auto
  show ?thesis
  proof (cases r)
    case None
    obtain c2 where "fst (writeFiles rt pdir (\<lambda>renderedPath. pathJoin [''seed'', renderedPath]) ctx fs tr') = tr' @ c2"
      using writeFiles_extends by blast
    then show ?thesis using fs p None c1 by (simp add: writeSeedFiles_def del: performAll.simps)
  next
    case (Some e)
    then show ?thesis using fs p c1 by (simp add: writeSeedFiles_def del: performAll.simps)
  qed
qed

lemma writeExtraFiles_extends: "\<exists>calls. fst (writeExtraFiles rt pdir ctx extras tr) = tr @ calls"
  using writeFiles_extends [of rt pdir "\<lambda>renderedPath. renderedPath" ctx _ tr]
  by (auto simp: writeExtraFiles_def split: option.splits)

lemma generateProject_starts_with_main:
  assumes "\<forall>tr op. fs_accepts rt tr op"
  shows "take 4 (fst (generateProject rt recipe pn vars)) =
           Mkdir (projectDirOf rt pn) # mainWrites rt recipe pn vars"
proof -
  let ?pdir = "projectDirOf rt pn"
  let ?ctx = "buildContext recipe pn vars"
  let ?tr1 = "Mkdir ?pdir # mainWrites rt recipe pn vars"
  obtain tr2 r2 where s: "writeSeedFiles rt ?pdir ?ctx (seedFiles recipe) ?tr1 = (tr2, r2)"
    by (cases "writeSeedFiles rt ?pdir ?ctx (seedFiles recipe) ?tr1")
  obtain c2 where c2: "tr2 = ?tr1 @ c2"
    using writeSeedFiles_extends [of rt ?pdir ?ctx "seedFiles recipe" ?tr1] unfolding s by auto
  obtain tr3 r3 where x: "writeExtraFiles rt ?pdir ?ctx (extraFiles recipe) tr2 = (tr3, r3)"
    by (cases "writeExtraFiles rt ?pdir ?ctx (extraFiles recipe) tr2")
  obtain c3 where c3: "tr3 = tr2 @ c3"
    using writeExtraFiles_extends [of rt ?pdir ?ctx "extraFiles recipe" tr2] unfolding x by auto
  have len: "length ?tr1 = 4" by (simp add: mainWrites_def)
  have "\<exists>calls. fst (generateProject rt recipe pn vars) = ?tr1 @ calls"
    unfolding generateProject_accepting [OF assms] s using x c2 c3
    by (cases r2; cases r3) auto
  then obtain calls where "fst (generateProject rt recipe pn vars) = ?tr1 @ calls" by blast
  then show ?thesis using len by simp
qed

lemma generateProject_result:
  assumes "snd (generateProject rt recipe pn vars) = Inr res"
  shows "res = \<lparr>projectDir = projectDirOf rt pn,
                  files = \<lparr>compose = renderTemplate (composeTemplate recipe) (buildContext recipe pn vars),
                           env = renderTemplate (envTemplate recipe) (buildContext recipe pn vars),
                           readme = renderTemplate (readmeTemplate recipe) (buildContext recipe pn vars)\<rparr>\<rparr>"
  using assms unfolding generateProject_def Let_def projectDirOf_def
  by (auto split: prod.splits option.splits)

lemma render_image_tag:
  assumes "ctx ''TAG'' = Some ''latest''"
  shows "renderTemplate ''image: {{TAG}}'' ctx = ''image: latest''"
proof -
  have k: "''TAG'' \<noteq> []" "list_all isKeyChar ''TAG''" "list_all isSpace []"
    by (simp_all add: isKeyChar_def isUpper_def isLower_def isDigit_def)
  have g: "getProp ctx ''TAG'' = Some ''latest''"
    using assms by (simp add: getProp_def)
  have pre: "renderTemplate ''image: '' ctx = ''image: ''"
    by (simp add: matchToken_def)
  have "renderTemplate ''image: {{TAG}}'' ctx =
          renderTemplate (''image: '' @ ''{{'' @ [] @ ''TAG'' @ [] @ ''}}'' @ []) ctx"
    by simp
  also have "\<dots> = renderTemplate ''image: '' ctx @
          (case getProp ctx ''TAG'' of Some v \<Rightarrow> v | None \<Rightarrow> []) @ renderTemplate [] ctx"
    by (rule renderTemplate_before_token [OF k(1) k(2) k(3) k(3)])
  also have "\<dots> = ''image: latest''"
    unfolding pre g by simp
  finally show ?thesis .
qed

text \<open>
  Claim C8. With \<^verbatim>\<open>paths.generatedDir\<close> in normal form, a project name matching its
  pattern and a file system that accepts every call, the first calls of
  \<open>generateProject\<close> create \<^verbatim>\<open><generatedDir>/<projectName>\<close> and write the rendered
  compose, env and readme templates to \<^verbatim>\<open>docker-compose.yml\<close>, \<^verbatim>\<open>.env\<close> and
  \<^verbatim>\<open>README.md\<close> in it; a result, when there is one, holds that directory and the same
  three strings; there is a result when the sandbox rejects no seed or extra file; and
  for the compose template \<^verbatim>\<open>image: {{TAG}}\<close> with \<^verbatim>\<open>TAG\<close> defaulting to \<^verbatim>\<open>latest\<close> and
  no override, the rendered compose content is \<^verbatim>\<open>image: latest\<close>.
\<close>

theorem generateProject_writes_main_files:
  assumes "\<forall>tr op. fs_accepts rt tr op"
    and "normalAbsolute (generatedDir rt)"
    and "projectNameRegex pn"
  shows "take 4 (fst (generateProject rt recipe pn vars)) =
           [Mkdir (generatedDir rt @ ''/'' @ pn),
            WriteFile (generatedDir rt @ ''/'' @ pn @ ''/docker-compose.yml'')
              (renderTemplate (composeTemplate recipe) (buildContext recipe pn vars)),
            WriteFile (generatedDir rt @ ''/'' @ pn @ ''/.env'')
              (renderTemplate (envTemplate recipe) (buildContext recipe pn vars)),
            WriteFile (generatedDir rt @ ''/'' @ pn @ ''/README.md'')
              (renderTemplate (readmeTemplate recipe) (buildContext recipe pn vars))] \<and>
         (\<forall>res. snd (generateProject rt recipe pn vars) = Inr res \<longrightarrow>
            res = \<lparr>projectDir = generatedDir rt @ ''/'' @ pn,
                   files = \<lparr>compose = renderTemplate (composeTemplate recipe) (buildContext recipe pn vars),
                            env = renderTemplate (envTemplate recipe) (buildContext recipe pn vars),
                            readme = renderTemplate (readmeTemplate recipe) (buildContext recipe pn vars)\<rparr>\<rparr>) \<and>
         ((\<forall>t \<in> set (declaredTargets rt recipe pn vars). \<not> isl t) \<longrightarrow>
            (\<exists>res. snd (generateProject rt recipe pn vars) = Inr res)) \<and>
         (composeTemplate recipe = ''image: {{TAG}}'' \<and> distinct (map key (variables recipe)) \<and>
          v \<in> set (variables recipe) \<and> key v = ''TAG'' \<and> default_value v = ''latest'' \<and>
          vars ''TAG'' = None \<longrightarrow>
            renderTemplate (composeTemplate recipe) (buildContext recipe pn vars) = ''image: latest'')"
proof -
  have pl: "plainSegment pn" using assms(3) by (rule projectName_plain)
  have pd: "projectDirOf rt pn = generatedDir rt @ ''/'' @ pn"
    and na: "normalAbsolute (generatedDir rt @ ''/'' @ pn)"
    unfolding projectDirOf_def using pathJoin_plain [OF assms(2) pl] by simp_all
  have f1: "pathJoin [generatedDir rt @ ''/'' @ pn, ''docker-compose.yml''] =
              generatedDir rt @ ''/'' @ pn @ ''/docker-compose.yml''"
    using pathJoin_plain(1) [OF na, of "''docker-compose.yml''"] by (simp add: plainSegment_def)
  have f2: "pathJoin [generatedDir rt @ ''/'' @ pn, ''.env''] = generatedDir rt @ ''/'' @ pn @ ''/.env''"
    using pathJoin_plain(1) [OF na, of "''.env''"] by (simp add: plainSegment_def)
  have f3: "pathJoin [generatedDir rt @ ''/'' @ pn, ''README.md''] =
              generatedDir rt @ ''/'' @ pn @ ''/README.md''"
    using pathJoin_plain(1) [OF na, of "''README.md''"] by (simp add: plainSegment_def)
  have a: "take 4 (fst (generateProject rt recipe pn vars)) =
           [Mkdir (generatedDir rt @ ''/'' @ pn),
            WriteFile (generatedDir rt @ ''/'' @ pn @ ''/docker-compose.yml'')
              (renderTemplate (composeTemplate recipe) (buildContext recipe pn vars)),
            WriteFile (generatedDir rt @ ''/'' @ pn @ ''/.env'')
              (renderTemplate (envTemplate recipe) (buildContext recipe pn vars)),
            WriteFile (generatedDir rt @ ''/'' @ pn @ ''/README.md'')
              (renderTemplate (readmeTemplate recipe) (buildContext recipe pn vars))]"
    unfolding generateProject_starts_with_main [OF assms(1)] mainWrites_def pd f1 f2 f3 ..
  have b: "\<forall>res. snd (generateProject rt recipe pn vars) = Inr res \<longrightarrow>
            res = \<lparr>projectDir = generatedDir rt @ ''/'' @ pn,
                   files = \<lparr>compose = renderTemplate (composeTemplate recipe) (buildContext recipe pn vars),
                            env = renderTemplate (envTemplate recipe) (buildContext recipe pn vars),
                            readme = renderTemplate (readmeTemplate recipe) (buildContext recipe pn vars)\<rparr>\<rparr>"
    using generateProject_result [of rt recipe pn vars] unfolding pd by blast
  have c: "(\<forall>t \<in> set (declaredTargets rt recipe pn vars). \<not> isl t) \<longrightarrow>
            (\<exists>res. snd (generateProject rt recipe pn vars) = Inr res)"
  proof
    assume "\<forall>t \<in> set (declaredTargets rt recipe pn vars). \<not> isl t"
    from generateProject_returns_when_all_pass [OF assms(1) this]
    show "\<exists>res. snd (generateProject rt recipe pn vars) = Inr res" by auto
  qed
  have d: "composeTemplate recipe = ''image: {{TAG}}'' \<and> distinct (map key (variables recipe)) \<and>
          v \<in> set (variables recipe) \<and> key v = ''TAG'' \<and> default_value v = ''latest'' \<and>
          vars ''TAG'' = None \<longrightarrow>
            renderTemplate (composeTemplate recipe) (buildContext recipe pn vars) = ''image: latest''"
  proof (intro impI, elim conjE)
    assume h: "composeTemplate recipe = ''image: {{TAG}}''" "distinct (map key (variables recipe))"
      "v \<in> set (variables recipe)" "key v = ''TAG''" "default_value v = ''latest''" "vars ''TAG'' = None"
    have "buildContext recipe pn vars (key v) =
            Some (case getProp vars (key v) of Some x \<Rightarrow> x | None \<Rightarrow> default_value v)"
      unfolding buildContext_def fromEntries_eq
      using foldl_upd_distinct [OF h(2) h(3),
          of "\<lambda>v. case getProp vars (key v) of Some x \<Rightarrow> x | None \<Rightarrow> default_value v" Map.empty]
      by (simp add: map_add_def)
    moreover have "getProp vars ''TAG'' = None"
      using h(6) by (simp add: getProp_def objectPrototype_def objectPrototypeTable_def)
    ultimately have "buildContext recipe pn vars ''TAG'' = Some ''latest''" using h by simp
    then show "renderTemplate (composeTemplate recipe) (buildContext recipe pn vars) = ''image: latest''"
      unfolding h(1) by (rule render_image_tag)
  qed
  from a b c d show ?thesis by blast
qed

theorem generateProject_writes_main_files_witness:
  "normalAbsolute (generatedDir demoRuntime) \<and> projectNameRegex ''proj'' \<and>
   take 4 (fst (generateProject demoRuntime tagRecipe ''proj'' Map.empty)) =
     [Mkdir ''/srv/lab/generated/proj'',
      WriteFile ''/srv/lab/generated/proj/docker-compose.yml'' ''image: latest'',
      WriteFile ''/srv/lab/generated/proj/.env'' ''MODE=lab'',
      WriteFile ''/srv/lab/generated/proj/README.md'' ''# proj''] \<and>
   snd (generateProject demoRuntime tagRecipe ''proj'' Map.empty) =
     Inr \<lparr>projectDir = ''/srv/lab/generated/proj'',
          files = \<lparr>compose = ''image: latest'', env = ''MODE=lab'', readme = ''# proj''\<rparr>\<rparr>"
proof -
  have h1: "\<forall>tr op. fs_accepts demoRuntime tr op" by (simp add: demoRuntime_def)
  have h2: "normalAbsolute (generatedDir demoRuntime)"
    by (simp add: normalAbsolute_def plainSegment_def demoRuntime_def)
  have h3: "projectNameRegex ''proj''"
    by (simp add: projectNameRegex_def isLower_def isDigit_def)
  have none: "\<forall>t \<in> set (declaredTargets demoRuntime tagRecipe ''proj'' Map.empty). \<not> isl t"
    by (simp add: declaredTargets_def seedList_def extraList_def tagRecipe_def mkRecipe_def)
  have tag: "composeTemplate tagRecipe = ''image: {{TAG}}'' \<and> distinct (map key (variables tagRecipe)) \<and>
     mkVariable ''TAG'' ''latest'' False None \<in> set (variables tagRecipe) \<and>
     key (mkVariable ''TAG'' ''latest'' False None) = ''TAG'' \<and>
     default_value (mkVariable ''TAG'' ''latest'' False None) = ''latest'' \<and>
     Map.empty ''TAG'' = (None :: string option)"
    by (simp add: tagRecipe_def mkRecipe_def mkVariable_def)
  have env: "renderTemplate (envTemplate tagRecipe) (buildContext tagRecipe ''proj'' Map.empty) = ''MODE=lab''"
    by (simp add: tagRecipe_def mkRecipe_def matchToken_def)
  have readme: "renderTemplate (readmeTemplate tagRecipe) (buildContext tagRecipe ''proj'' Map.empty) = ''# proj''"
    by (simp add: eval_defs tagRecipe_def)
  show ?thesis
    using generateProject_writes_main_files [OF h1 h2 h3, of tagRecipe Map.empty
        "mkVariable ''TAG'' ''latest'' False None"] h2 h3 none tag env readme
    by (auto simp: demoRuntime_def)
qed

theorem generateProject_writes_in_declared_order_witness:
  "snd (generateProject demoRuntime seededRecipe ''proj'' Map.empty) =
     Inr \<lparr>projectDir = ''/srv/lab/generated/proj'',
          files = \<lparr>compose = ''image: demo'', env = ''MODE=lab'', readme = ''# proj''\<rparr>\<rparr> \<and>
   filter isWriteFile (fst (generateProject demoRuntime seededRecipe ''proj'' Map.empty)) =
     [WriteFile ''/srv/lab/generated/proj/docker-compose.yml'' ''image: demo'',
      WriteFile ''/srv/lab/generated/proj/.env'' ''MODE=lab'',
      WriteFile ''/srv/lab/generated/proj/README.md'' ''# proj'',
      WriteFile ''/srv/lab/generated/proj/seed/init/lab.sql'' ''create database lab;'',
      WriteFile ''/srv/lab/generated/proj/seed/rows.csv'' ''1,2'',
      WriteFile ''/srv/lab/generated/proj/conf/app.conf'' ''name=lab'',
      WriteFile ''/srv/lab/generated/proj/notes.txt'' ''for proj''] \<and>
   snd (generateProject demoRuntime escapeRecipe ''proj'' Map.empty) =
     Inl (InvalidFilePath ''../../etc/passwd'') \<and>
   filter isWriteFile (fst (generateProject demoRuntime escapeRecipe ''proj'' Map.empty)) =
     [WriteFile ''/srv/lab/generated/proj/docker-compose.yml'' ''image: demo'',
      WriteFile ''/srv/lab/generated/proj/.env'' ''MODE=lab'',
      WriteFile ''/srv/lab/generated/proj/README.md'' ''# proj'',
      WriteFile ''/srv/lab/generated/proj/seed/init/lab.sql'' ''create database lab;'',
      WriteFile ''/srv/lab/generated/proj/conf/app.conf'' ''name=lab'']"
proof -
  have dt: "declaredTargets demoRuntime escapeRecipe ''proj'' Map.empty =
     [Inr (''/srv/lab/generated/proj/seed/init/lab.sql'', ''create database lab;''),
      Inr (''/srv/lab/generated/proj/conf/app.conf'', ''name=lab''),
      Inl (InvalidFilePath ''../../etc/passwd''),
      Inr (''/srv/lab/generated/proj/notes.txt'', ''never written'')]"
    by (simp add: declaredTargets_def seedList_def extraList_def fileTarget_def projectDirOf_def
        eval_defs escapeRecipe_def)
  have mw: "mainWrites demoRuntime escapeRecipe ''proj'' Map.empty =
     [WriteFile ''/srv/lab/generated/proj/docker-compose.yml'' ''image: demo'',
      WriteFile ''/srv/lab/generated/proj/.env'' ''MODE=lab'',
      WriteFile ''/srv/lab/generated/proj/README.md'' ''# proj'']"
    by (simp add: mainWrites_def projectDirOf_def eval_defs escapeRecipe_def)
  have ds: "declaredTargets demoRuntime seededRecipe ''proj'' Map.empty =
     [Inr (''/srv/lab/generated/proj/seed/init/lab.sql'', ''create database lab;''),
      Inr (''/srv/lab/generated/proj/seed/rows.csv'', ''1,2''),
      Inr (''/srv/lab/generated/proj/conf/app.conf'', ''name=lab''),
      Inr (''/srv/lab/generated/proj/notes.txt'', ''for proj'')]"
    by (simp add: declaredTargets_def seedList_def extraList_def fileTarget_def projectDirOf_def
        eval_defs seededRecipe_def)
  have ms: "mainWrites demoRuntime seededRecipe ''proj'' Map.empty =
     [WriteFile ''/srv/lab/generated/proj/docker-compose.yml'' ''image: demo'',
      WriteFile ''/srv/lab/generated/proj/.env'' ''MODE=lab'',
      WriteFile ''/srv/lab/generated/proj/README.md'' ''# proj'']"
    by (simp add: mainWrites_def projectDirOf_def eval_defs seededRecipe_def)
  have rs: "\<lparr>projectDir = projectDirOf demoRuntime ''proj'',
       files = \<lparr>compose = renderTemplate (composeTemplate seededRecipe)
                             (buildContext seededRecipe ''proj'' Map.empty),
                env = renderTemplate (envTemplate seededRecipe)
                        (buildContext seededRecipe ''proj'' Map.empty),
                readme = renderTemplate (readmeTemplate seededRecipe)
                           (buildContext seededRecipe ''proj'' Map.empty)\<rparr>\<rparr> =
     \<lparr>projectDir = ''/srv/lab/generated/proj'',
      files = \<lparr>compose = ''image: demo'', env = ''MODE=lab'', readme = ''# proj''\<rparr>\<rparr>"
    by (simp add: projectDirOf_def eval_defs seededRecipe_def)
  have h1: "\<forall>tr op. fs_accepts demoRuntime tr op" by (simp add: demoRuntime_def)
  have pass: "\<forall>t \<in> set (declaredTargets demoRuntime seededRecipe ''proj'' Map.empty). \<not> isl t"
    by (simp add: ds)
  have fail: "2 < length (declaredTargets demoRuntime escapeRecipe ''proj'' Map.empty) \<and>
      declaredTargets demoRuntime escapeRecipe ''proj'' Map.empty ! 2 =
        Inl (InvalidFilePath ''../../etc/passwd'') \<and>
      (\<forall>j<2. \<not> isl (declaredTargets demoRuntime escapeRecipe ''proj'' Map.empty ! j))"
    by (simp add: dt less_Suc_eq numeral_2_eq_2)
  note a = mp [OF conjunct1 [OF generateProject_writes_in_declared_order [OF h1,
      of seededRecipe "''proj''" Map.empty]] pass]
  note b = mp [OF conjunct2 [OF generateProject_writes_in_declared_order [OF h1,
      of escapeRecipe "''proj''" Map.empty 2 "InvalidFilePath ''../../etc/passwd''"]] fail]
  have a1: "snd (generateProject demoRuntime seededRecipe ''proj'' Map.empty) =
     Inr \<lparr>projectDir = ''/srv/lab/generated/proj'',
          files = \<lparr>compose = ''image: demo'', env = ''MODE=lab'', readme = ''# proj''\<rparr>\<rparr>"
    using conjunct1 [OF a] unfolding rs .
  have a2: "filter isWriteFile (fst (generateProject demoRuntime seededRecipe ''proj'' Map.empty)) =
     [WriteFile ''/srv/lab/generated/proj/docker-compose.yml'' ''image: demo'',
      WriteFile ''/srv/lab/generated/proj/.env'' ''MODE=lab'',
      WriteFile ''/srv/lab/generated/proj/README.md'' ''# proj'',
      WriteFile ''/srv/lab/generated/proj/seed/init/lab.sql'' ''create database lab;'',
      WriteFile ''/srv/lab/generated/proj/seed/rows.csv'' ''1,2'',
      WriteFile ''/srv/lab/generated/proj/conf/app.conf'' ''name=lab'',
      WriteFile ''/srv/lab/generated/proj/notes.txt'' ''for proj'']"
    using conjunct1 [OF conjunct2 [OF a]] by (simp add: ds ms fileWrites_def)
  have b1: "snd (generateProject demoRuntime escapeRecipe ''proj'' Map.empty) =
     Inl (InvalidFilePath ''../../etc/passwd'')"
    using b by (rule conjunct1)
  have b2: "filter isWriteFile (fst (generateProject demoRuntime escapeRecipe ''proj'' Map.empty)) =
     [WriteFile ''/srv/lab/generated/proj/docker-compose.yml'' ''image: demo'',
      WriteFile ''/srv/lab/generated/proj/.env'' ''MODE=lab'',
      WriteFile ''/srv/lab/generated/proj/README.md'' ''# proj'',
      WriteFile ''/srv/lab/generated/proj/seed/init/lab.sql'' ''create database lab;'',
      WriteFile ''/srv/lab/generated/proj/conf/app.conf'' ''name=lab'']"
    using conjunct1 [OF conjunct2 [OF b]] by (simp add: dt mw fileWrites_def)
  from a1 a2 b1 b2 show ?thesis by (intro conjI)
qed

end
